theory Spec2Isabelle
  imports Complex_Main
begin

section \<open>Entities and the object store\<close>

text \<open>
  JavaScript objects are compared by reference. An entity is therefore a reference
  (an address) into a store of entity objects; pools, grid buckets and the removal
  queue hold references, and \<open>indexOf\<close> / \<open>includes\<close> compare references.
  Two different references may hold objects with equal fields.
  Coordinates, ages, lifetimes, rates and times are JavaScript numbers; the finite
  ones are real numbers, and they are modelled as such, with the sums, differences and
  comparisons of the reals. The quotients the spatial grid floors are not computed in
  the reals: see there.
\<close>

type_synonym ref = nat

record descriptor =
  sid :: string
  MAX_COUNT :: nat
  maxAge :: real
  pollutionRate :: "real option"
  toxic :: bool
  isBaby :: bool
  isPredator :: bool
  onIsland :: bool
  isOctopus :: bool
  isKelp :: bool
  isSeagrass :: bool

record entity =
  eid :: nat
  ex :: real
  ey :: real
  speciesDef :: "descriptor option"
  age :: real
  lifetime :: real
  dead :: bool

type_synonym store = "ref \<Rightarrow> entity"

section \<open>engine/SpatialGrid.js\<close>

text \<open>
  \<open>_key(x, y)\<close> is the string made of \<open>Math.floor(x / this.cellSize)\<close>, a comma and
  \<open>Math.floor(y / this.cellSize)\<close>. The quotient is a double: it is rounded, and it is
  infinite or not a number for some cell sizes. That arithmetic is not modelled. The
  grid carries it as \<open>floorDiv\<close>: \<open>floorDiv g a b\<close> stands for the text the template
  prints for \<open>Math.floor(a / b)\<close>, a value of a type \<open>'i\<close> of such texts, and a key is the
  pair of the two texts (no such text holds a comma). Every statement about a grid
  holds for every function in this place. \<open>getNearby\<close>, which computes with such
  quotients as numbers, is not modelled.
\<close>

record 'i SpatialGrid =
  cellSize :: real
  floorDiv :: "real \<Rightarrow> real \<Rightarrow> 'i"
  grid :: "'i \<times> 'i \<rightharpoonup> ref list"

definition SpatialGrid_new :: "real \<Rightarrow> (real \<Rightarrow> real \<Rightarrow> 'i) \<Rightarrow> 'i SpatialGrid" where
  "SpatialGrid_new cs fd = \<lparr>cellSize = cs, floorDiv = fd, grid = Map.empty\<rparr>"

definition key :: "'i SpatialGrid \<Rightarrow> real \<Rightarrow> real \<Rightarrow> 'i \<times> 'i" where
  "key g x y = (floorDiv g x (cellSize g), floorDiv g y (cellSize g))"

text \<open>\<open>grid.get(k)\<close> read as a list: a missing bucket has no members.\<close>

definition cell :: "'i SpatialGrid \<Rightarrow> 'i \<times> 'i \<Rightarrow> ref list" where
  "cell g k = (case grid g k of None \<Rightarrow> [] | Some c \<Rightarrow> c)"

text \<open>\<open>add\<close>: create the bucket when it is missing, then push; nothing is looked up first.\<close>

definition grid_add :: "store \<Rightarrow> 'i SpatialGrid \<Rightarrow> ref \<Rightarrow> 'i SpatialGrid" where
  "grid_add h g obj =
     (let k = key g (ex (h obj)) (ey (h obj));
          m = (case grid g k of None \<Rightarrow> (grid g)(k \<mapsto> []) | Some c \<Rightarrow> grid g)
      in g\<lparr>grid := m(k \<mapsto> (case m k of None \<Rightarrow> [] | Some c \<Rightarrow> c) @ [obj])\<rparr>)"

text \<open>\<open>remove\<close>: the bucket of the object's current position; \<open>indexOf\<close> then \<open>splice\<close>
  deletes the first entry that is this reference.\<close>

definition grid_remove :: "store \<Rightarrow> 'i SpatialGrid \<Rightarrow> ref \<Rightarrow> 'i SpatialGrid" where
  "grid_remove h g obj =
     (let k = key g (ex (h obj)) (ey (h obj))
      in case grid g k of
           None \<Rightarrow> g
         | Some c \<Rightarrow> g\<lparr>grid := (grid g)(k \<mapsto> remove1 obj c)\<rparr>)"

definition grid_update :: "store \<Rightarrow> 'i SpatialGrid \<Rightarrow> ref \<Rightarrow> real \<Rightarrow> real \<Rightarrow> 'i SpatialGrid" where
  "grid_update h g obj oldX oldY =
     (let oldKey = key g oldX oldY;
          newKey = key g (ex (h obj)) (ey (h obj))
      in if oldKey = newKey then g
         else
           let m1 = (case grid g oldKey of
                       None \<Rightarrow> grid g
                     | Some c \<Rightarrow> (grid g)(oldKey \<mapsto> remove1 obj c));
               m2 = (case m1 newKey of None \<Rightarrow> m1(newKey \<mapsto> []) | Some c \<Rightarrow> m1)
           in g\<lparr>grid := m2(newKey \<mapsto> (case m2 newKey of None \<Rightarrow> [] | Some c \<Rightarrow> c) @ [obj])\<rparr>)"

section \<open>engine/EntityManager.js\<close>

datatype poolKey =
  ducks | fish | food | eggs | algae | seagrass | kelp | octopi | elixirs | islands
  | seaCreatures | predators

datatype gridKey = grid_ducks | grid_fish | grid_food | grid_creatures

datatype idCounter =
  nextDuckId | nextFishId | nextFoodId | nextEggId | nextAlgaeId | nextSeagrassId
  | nextOctopusId | nextElixirId | nextIslandId | nextKelpId | nextCreatureId | nextPredatorId

text \<open>Notifications sent on the bus are recorded in the order they are emitted.\<close>

datatype event =
  ENTITY_SPAWNED ref poolKey
  | ENTITY_REMOVED ref
  | HUD_REFRESH
  | POLLUTION_CHANGED real

fun GRID_MAP :: "poolKey \<Rightarrow> gridKey option" where
  "GRID_MAP ducks = Some grid_ducks"
| "GRID_MAP fish = Some grid_fish"
| "GRID_MAP food = Some grid_food"
| "GRID_MAP seaCreatures = Some grid_creatures"
| "GRID_MAP _ = None"

text \<open>
  The registry with the object store it works on. \<open>objs\<close> is the store, \<open>fresh\<close> the
  next unused reference (\<open>new\<close> takes it), \<open>emitted\<close> the notifications sent so far.
\<close>

record 'i EntityManager =
  pools :: "poolKey \<Rightarrow> ref list"
  ids :: "idCounter \<Rightarrow> nat"
  grids :: "gridKey \<Rightarrow> 'i SpatialGrid"
  removeQueue :: "ref list"
  waterPollution :: real
  biodiversity :: real
  objs :: store
  fresh :: ref
  emitted :: "event list"

definition blank :: entity where
  "blank = \<lparr>eid = 0, ex = 0, ey = 0, speciesDef = None, age = 0, lifetime = 0, dead = False\<rparr>"

definition EntityManager_new :: "real \<Rightarrow> (real \<Rightarrow> real \<Rightarrow> 'i) \<Rightarrow> 'i EntityManager" where
  "EntityManager_new gs fd =
     \<lparr>pools = (\<lambda>_. []), ids = (\<lambda>_. 1), grids = (\<lambda>_. SpatialGrid_new gs fd),
      removeQueue = [], waterPollution = 0, biodiversity = 100,
      objs = (\<lambda>_. blank), fresh = 0, emitted = []\<rparr>"

text \<open>The getter \<open>allArrays\<close> lists eleven of the twelve pools: \<open>islands\<close> is not among them.\<close>

definition arrayNames :: "poolKey list" where
  "arrayNames =
     [ducks, fish, food, eggs, algae, seagrass, kelp, octopi, elixirs, seaCreatures, predators]"

definition allArrays :: "'i EntityManager \<Rightarrow> ref list list" where
  "allArrays s = map (pools s) arrayNames"

text \<open>\<open>e.speciesDef?.id === speciesDef.id\<close>\<close>

definition sameSpecies :: "store \<Rightarrow> descriptor \<Rightarrow> ref \<Rightarrow> bool" where
  "sameSpecies h d e = (case speciesDef (h e) of None \<Rightarrow> False | Some d' \<Rightarrow> sid d' = sid d)"

definition countSpecies :: "'i EntityManager \<Rightarrow> descriptor \<Rightarrow> nat" where
  "countSpecies s d =
     fold (\<lambda>arr n. fold (\<lambda>e n. if sameSpecies (objs s) d e then n + 1 else n) arr n)
       (allArrays s) 0"

definition canSpawn :: "'i EntityManager \<Rightarrow> descriptor \<Rightarrow> bool" where
  "canSpawn s d = (countSpecies s d < MAX_COUNT d)"

text \<open>\<open>this.bus.emit(...)\<close> as the registry sees it: the notification is recorded.\<close>

definition notify :: "'i EntityManager \<Rightarrow> event \<Rightarrow> 'i EntityManager" where
  "notify s ev = s\<lparr>emitted := emitted s @ [ev]\<rparr>"

definition add :: "'i EntityManager \<Rightarrow> ref \<Rightarrow> poolKey \<Rightarrow> bool \<Rightarrow> 'i EntityManager" where
  "add s e poolKey useGrid =
     (let s1 = s\<lparr>pools := (pools s)(poolKey := pools s poolKey @ [e])\<rparr>;
          s2 = (case GRID_MAP poolKey of
                  Some gk \<Rightarrow>
                    if useGrid then s1\<lparr>grids := (grids s1)(gk := grid_add (objs s1) (grids s1 gk) e)\<rparr>
                    else s1
                | None \<Rightarrow> s1)
      in notify (notify s2 (ENTITY_SPAWNED e poolKey)) HUD_REFRESH)"

definition queueRemove :: "'i EntityManager \<Rightarrow> ref \<Rightarrow> 'i EntityManager" where
  "queueRemove s e =
     (if e \<in> set (removeQueue s) then s else s\<lparr>removeQueue := removeQueue s @ [e]\<rparr>)"

definition poolNames :: "poolKey list" where
  "poolNames = [ducks, fish, food, eggs, algae, seagrass, kelp, octopi, elixirs, islands,
                seaCreatures, predators]"

text \<open>
  The body of the loop of \<open>remove\<close> for a pool that holds the entity: the pool loses its
  first entry for it, the mapped grid (if any) is asked to remove it, and the two
  notifications are sent. \<open>entity.destroy\<close> only detaches the DOM element.
\<close>

definition remove_at :: "'i EntityManager \<Rightarrow> poolKey \<Rightarrow> ref \<Rightarrow> 'i EntityManager" where
  "remove_at s k e =
     (let s1 = s\<lparr>pools := (pools s)(k := remove1 e (pools s k))\<rparr>;
          s2 = (case GRID_MAP k of
                  Some gk \<Rightarrow> s1\<lparr>grids := (grids s1)(gk := grid_remove (objs s1) (grids s1 gk) e)\<rparr>
                | None \<Rightarrow> s1)
      in notify (notify s2 (ENTITY_REMOVED e)) HUD_REFRESH)"

text \<open>The loop over the pool names: it returns at the first pool that holds the entity;
  when the names run out the registry is left as it is.\<close>

fun remove_in :: "poolKey list \<Rightarrow> 'i EntityManager \<Rightarrow> ref \<Rightarrow> 'i EntityManager" where
  "remove_in [] s e = s"
| "remove_in (k # ks) s e =
     (if e \<in> set (pools s k) then remove_at s k e else remove_in ks s e)"

definition remove :: "'i EntityManager \<Rightarrow> ref \<Rightarrow> 'i EntityManager" where
  "remove s e = remove_in poolNames s e"

definition flushRemovals :: "'i EntityManager \<Rightarrow> 'i EntityManager" where
  "flushRemovals s = (fold (\<lambda>e s'. remove s' e) (removeQueue s) s)\<lparr>removeQueue := []\<rparr>"

definition updateGrid :: "'i EntityManager \<Rightarrow> ref \<Rightarrow> real \<Rightarrow> real \<Rightarrow> gridKey \<Rightarrow> 'i EntityManager" where
  "updateGrid s e oldX oldY gk =
     s\<lparr>grids := (grids s)(gk := grid_update (objs s) (grids s gk) e oldX oldY)\<rparr>"

section \<open>game/SpeciesRegistry.js\<close>

text \<open>
  The table of species descriptors. \<open>isMobile\<close> comes from the user agent; on a mobile
  device the closing loop of the module halves every cap, rounding down. A flag a
  descriptor does not carry is read as false.
\<close>

definition species :: "bool \<Rightarrow> string \<Rightarrow> nat \<Rightarrow> real \<Rightarrow> descriptor" where
  "species isMobile i c a =
     \<lparr>sid = i, MAX_COUNT = (if isMobile then c div 2 else c), maxAge = a,
      pollutionRate = None, toxic = False, isBaby = False, isPredator = False,
      onIsland = False, isOctopus = False, isKelp = False, isSeagrass = False\<rparr>"

definition HEALTHY :: "bool \<Rightarrow> descriptor" where
  "HEALTHY m = (species m ''algae_healthy'' 40 60)\<lparr>pollutionRate := Some (- (1 / 10))\<rparr>"
definition TOXIC :: "bool \<Rightarrow> descriptor" where
  "TOXIC m = (species m ''algae_toxic'' 20 45)\<lparr>pollutionRate := Some (1 / 2), toxic := True\<rparr>"
definition KELP :: "bool \<Rightarrow> descriptor" where
  "KELP m = (species m ''kelp'' 20 120)\<lparr>pollutionRate := Some (- (15 / 100)), isKelp := True\<rparr>"
definition SEAGRASS :: "bool \<Rightarrow> descriptor" where
  "SEAGRASS m = (species m ''seagrass'' 30 200)\<lparr>pollutionRate := Some (- (5 / 100)), isSeagrass := True\<rparr>"

definition MALLARD :: "bool \<Rightarrow> descriptor" where
  "MALLARD m = species m ''duck_mallard'' 30 240"
definition BABY_DUCK :: "bool \<Rightarrow> descriptor" where
  "BABY_DUCK m = (species m ''duck_baby'' 30 240)\<lparr>isBaby := True\<rparr>"
definition PELICAN :: "bool \<Rightarrow> descriptor" where
  "PELICAN m = species m ''pelican'' 10 300"
definition SWAN :: "bool \<Rightarrow> descriptor" where
  "SWAN m = species m ''swan'' 12 220"
definition FLAMINGO :: "bool \<Rightarrow> descriptor" where
  "FLAMINGO m = (species m ''flamingo'' 10 200)\<lparr>onIsland := True\<rparr>"
definition GOOSE :: "bool \<Rightarrow> descriptor" where
  "GOOSE m = species m ''goose'' 12 180"

definition CAT :: "bool \<Rightarrow> descriptor" where
  "CAT m = (species m ''cat'' 8 150)\<lparr>isPredator := True, onIsland := True\<rparr>"
definition DOG :: "bool \<Rightarrow> descriptor" where
  "DOG m = (species m ''dog'' 8 120)\<lparr>isPredator := True, onIsland := True\<rparr>"
definition WHALE :: "bool \<Rightarrow> descriptor" where
  "WHALE m = species m ''whale'' 5 400"
definition DOLPHIN :: "bool \<Rightarrow> descriptor" where
  "DOLPHIN m = species m ''dolphin'' 8 250"
definition SEAL :: "bool \<Rightarrow> descriptor" where
  "SEAL m = species m ''seal'' 8 200"
definition OTTER :: "bool \<Rightarrow> descriptor" where
  "OTTER m = species m ''otter'' 10 150"

definition SALMON :: "bool \<Rightarrow> descriptor" where
  "SALMON m = species m ''fish_salmon'' 30 120"
definition TROPICAL :: "bool \<Rightarrow> descriptor" where
  "TROPICAL m = species m ''fish_tropical'' 20 100"
definition PUFFER :: "bool \<Rightarrow> descriptor" where
  "PUFFER m = species m ''fish_puffer'' 10 120"
definition SHARK :: "bool \<Rightarrow> descriptor" where
  "SHARK m = species m ''fish_shark'' 5 300"
definition SQUID :: "bool \<Rightarrow> descriptor" where
  "SQUID m = species m ''fish_squid'' 12 180"
definition LOBSTER :: "bool \<Rightarrow> descriptor" where
  "LOBSTER m = species m ''fish_lobster'' 10 240"
definition CRAB :: "bool \<Rightarrow> descriptor" where
  "CRAB m = species m ''fish_crab'' 12 180"
definition SHELL :: "bool \<Rightarrow> descriptor" where
  "SHELL m = species m ''fish_shell'' 10 600"
definition OCTOPUS :: "bool \<Rightarrow> descriptor" where
  "OCTOPUS m = (species m ''octopus'' 8 150)\<lparr>isOctopus := True\<rparr>"

definition SHRIMP :: "bool \<Rightarrow> descriptor" where
  "SHRIMP m = species m ''shrimp'' 40 30"
definition SHRIMP_B :: "bool \<Rightarrow> descriptor" where
  "SHRIMP_B m = (species m ''shrimp_baby'' 40 20)\<lparr>isBaby := True\<rparr>"

definition SPECIES_mammals :: "bool \<Rightarrow> descriptor list" where
  "SPECIES_mammals m = [CAT m, DOG m, WHALE m, DOLPHIN m, SEAL m, OTTER m]"

definition SPECIES :: "bool \<Rightarrow> descriptor list" where
  "SPECIES m =
     [HEALTHY m, TOXIC m, KELP m, SEAGRASS m,
      MALLARD m, BABY_DUCK m, PELICAN m, SWAN m, FLAMINGO m, GOOSE m]
     @ SPECIES_mammals m @
     [SALMON m, TROPICAL m, PUFFER m, SHARK m, SQUID m, LOBSTER m, CRAB m, SHELL m, OCTOPUS m,
      SHRIMP m, SHRIMP_B m]"

section \<open>game/Spawners.js\<close>

text \<open>
  Constructors. Only the fields the registry, the grids and the pollution step read are
  kept, with the age. An entity class that sets no \<open>lifetime\<close> or no \<open>age\<close> gets 0 in that
  field; islands, eggs and elixirs carry no species descriptor.
\<close>

definition BaseEntity :: "nat \<Rightarrow> real \<Rightarrow> real \<Rightarrow> descriptor \<Rightarrow> entity" where
  "BaseEntity i x y d =
     \<lparr>eid = i, ex = x, ey = y, speciesDef = Some d, age = 0, lifetime = 0, dead = False\<rparr>"

definition AlgaeEntity :: "nat \<Rightarrow> real \<Rightarrow> real \<Rightarrow> descriptor \<Rightarrow> entity" where
  "AlgaeEntity i x y d = (BaseEntity i x y d)\<lparr>lifetime := maxAge d\<rparr>"

definition PreyEntity :: "nat \<Rightarrow> real \<Rightarrow> real \<Rightarrow> descriptor \<Rightarrow> entity" where
  "PreyEntity i x y d =
     \<lparr>eid = i, ex = x, ey = y, speciesDef = Some d, age = 0, lifetime = maxAge d * 1000,
      dead = False\<rparr>"

definition StaticEntity :: "nat \<Rightarrow> real \<Rightarrow> real \<Rightarrow> entity" where
  "StaticEntity i x y =
     \<lparr>eid = i, ex = x, ey = y, speciesDef = None, age = 0, lifetime = 0, dead = False\<rparr>"

text \<open>\<open>new\<close>: the object is stored at the next unused reference.\<close>

definition new_obj :: "'i EntityManager \<Rightarrow> entity \<Rightarrow> 'i EntityManager \<times> ref" where
  "new_obj s e = (s\<lparr>objs := (objs s)(fresh s := e), fresh := Suc (fresh s)\<rparr>, fresh s)"

text \<open>\<open>this.entities.nextXId++\<close>\<close>

definition postinc :: "idCounter \<Rightarrow> 'i EntityManager \<Rightarrow> nat \<times> 'i EntityManager" where
  "postinc c s = (ids s c, s\<lparr>ids := (ids s)(c := ids s c + 1)\<rparr>)"

text \<open>
  The shape every gated spawner shares after its \<open>canSpawn\<close> test: take the id, construct,
  \<open>add\<close>. Positions drawn with \<open>Math.random\<close> or from the world are arguments.
\<close>

definition construct_add ::
  "'i EntityManager \<Rightarrow> idCounter \<Rightarrow> (nat \<Rightarrow> entity) \<Rightarrow> poolKey \<Rightarrow> bool \<Rightarrow> 'i EntityManager \<times> ref" where
  "construct_add s c mk poolKey useGrid =
     (let (i, s1) = postinc c s;
          (s2, r) = new_obj s1 (mk i)
      in (add s2 r poolKey useGrid, r))"

definition addBird :: "'i EntityManager \<Rightarrow> descriptor \<Rightarrow> real \<Rightarrow> real \<Rightarrow> 'i EntityManager \<times> ref option" where
  "addBird s d x y =
     (if \<not> canSpawn s d then (s, None)
      else let (s', r) = construct_add s nextDuckId (\<lambda>i. BaseEntity i x y d) ducks True
           in (s', Some r))"

definition mainFish :: "bool \<Rightarrow> string list" where
  "mainFish m = [sid (SALMON m), sid (TROPICAL m), sid (PUFFER m), sid (SHARK m)]"

definition spawnFish ::
  "bool \<Rightarrow> 'i EntityManager \<Rightarrow> descriptor \<Rightarrow> real \<Rightarrow> real \<Rightarrow> 'i EntityManager \<times> ref option" where
  "spawnFish m s d x y =
     (if \<not> canSpawn s d then (s, None)
      else
        let (i, s1) = postinc nextFishId s;
            (s2, r) = new_obj s1 (BaseEntity i x y d)
        in if isOctopus d then (add s2 r octopi False, Some r)
           else if sid d \<in> set (mainFish m) then (add s2 r fish True, Some r)
           else (add s2 r seaCreatures True, Some r))"

definition addFish ::
  "bool \<Rightarrow> 'i EntityManager \<Rightarrow> descriptor \<Rightarrow> real \<Rightarrow> real \<Rightarrow> 'i EntityManager \<times> ref option" where
  "addFish m s d x y = spawnFish m s d x y"

definition addOctopus :: "bool \<Rightarrow> 'i EntityManager \<Rightarrow> real \<Rightarrow> real \<Rightarrow> 'i EntityManager \<times> ref option" where
  "addOctopus m s x y = spawnFish m s (OCTOPUS m) x y"

text \<open>\<open>addPredator\<close>: \<open>coin\<close> is the outcome of \<open>Math.random() < 0.5\<close>, \<open>x\<close>, \<open>y\<close> the position
  computed from the island that was drawn.\<close>

definition addPredator ::
  "bool \<Rightarrow> 'i EntityManager \<Rightarrow> descriptor option \<Rightarrow> bool \<Rightarrow> real \<Rightarrow> real
   \<Rightarrow> 'i EntityManager \<times> ref option" where
  "addPredator m s speciesDef' coin x y =
     (if pools s islands = [] then (s, None)
      else
        let def = (case speciesDef' of Some d \<Rightarrow> d | None \<Rightarrow> if coin then CAT m else DOG m)
        in if \<not> canSpawn s def then (s, None)
           else let (s', r) = construct_add s nextPredatorId (\<lambda>i. BaseEntity i x y def) predators False
                in (s', Some r))"

definition spawnSeaCreature ::
  "'i EntityManager \<Rightarrow> descriptor \<Rightarrow> real \<Rightarrow> real \<Rightarrow> 'i EntityManager \<times> ref option" where
  "spawnSeaCreature s d x y =
     (if \<not> canSpawn s d then (s, None)
      else let (s', r) = construct_add s nextCreatureId (\<lambda>i. BaseEntity i x y d) seaCreatures True
           in (s', Some r))"

text \<open>\<open>addSeaCreature\<close>: \<open>pick\<close> is the index drawn into the marine mammals that are
  neither predators nor island animals.\<close>

definition addSeaCreature ::
  "bool \<Rightarrow> 'i EntityManager \<Rightarrow> descriptor option \<Rightarrow> nat \<Rightarrow> real \<Rightarrow> real
   \<Rightarrow> 'i EntityManager \<times> ref option" where
  "addSeaCreature m s speciesDef' pick x y =
     (let opts = filter (\<lambda>d. \<not> isPredator d \<and> \<not> onIsland d) (SPECIES_mammals m);
          def = (case speciesDef' of Some d \<Rightarrow> d | None \<Rightarrow> opts ! (pick mod length opts))
      in if \<not> canSpawn s def then (s, None)
         else let (s', r) = construct_add s nextCreatureId (\<lambda>i. BaseEntity i x y def) seaCreatures True
              in (s', Some r))"

definition addFood :: "'i EntityManager \<Rightarrow> descriptor \<Rightarrow> real \<Rightarrow> 'i EntityManager \<times> ref option" where
  "addFood s d x =
     (if \<not> canSpawn s d then (s, None)
      else let (s', r) = construct_add s nextFoodId (\<lambda>i. PreyEntity i x 50 d) food False
           in (s', Some r))"

definition addFoodAt ::
  "bool \<Rightarrow> 'i EntityManager \<Rightarrow> real \<Rightarrow> real \<Rightarrow> bool \<Rightarrow> 'i EntityManager \<times> ref option" where
  "addFoodAt m s x y shouldFall =
     (if \<not> canSpawn s (SHRIMP m) then (s, None)
      else
        let (i, s1) = postinc nextFoodId s;
            (s2, r) = new_obj s1 (PreyEntity i x y (SHRIMP m));
            s3 = (if \<not> shouldFall
                  then s2\<lparr>grids := (grids s2)(grid_food := grid_add (objs s2) (grids s2 grid_food) r)\<rparr>
                  else s2)
        in (add s3 r food False, Some r))"

definition spawnBabyShrimp ::
  "bool \<Rightarrow> 'i EntityManager \<Rightarrow> real \<Rightarrow> real \<Rightarrow> real \<Rightarrow> 'i EntityManager \<times> ref option" where
  "spawnBabyShrimp m s oceanTop x y =
     (if \<not> canSpawn s (SHRIMP_B m) then (s, None)
      else let (s', r) = construct_add s nextFoodId
                           (\<lambda>i. PreyEntity i x (max (oceanTop + 10) y) (SHRIMP_B m)) food True
           in (s', Some r))"

text \<open>\<open>addAlgae\<close>: \<open>coin\<close> is the outcome of the random draw between toxic and healthy
  algae when no type is named.\<close>

definition addAlgae ::
  "bool \<Rightarrow> 'i EntityManager \<Rightarrow> string option \<Rightarrow> bool \<Rightarrow> real \<Rightarrow> real
   \<Rightarrow> 'i EntityManager \<times> ref option" where
  "addAlgae m s type coin x y =
     (let def = (if type = Some ''toxic'' then TOXIC m
                 else if type = Some ''kelp'' then KELP m
                 else if type = Some ''seagrass'' then SEAGRASS m
                 else if coin then TOXIC m else HEALTHY m)
      in if \<not> canSpawn s def then (s, None)
         else
           let (i, s1) = postinc nextAlgaeId s;
               (s2, r) = new_obj s1 (AlgaeEntity i x y def)
           in if isSeagrass def then (add s2 r seagrass False, Some r)
              else if isKelp def then (add s2 r kelp False, Some r)
              else (add s2 r algae False, Some r))"

definition addKelp :: "bool \<Rightarrow> 'i EntityManager \<Rightarrow> real \<Rightarrow> real \<Rightarrow> 'i EntityManager \<times> ref option" where
  "addKelp m s x y =
     (if \<not> canSpawn s (KELP m) then (s, None)
      else let (s', r) = construct_add s nextKelpId (\<lambda>i. AlgaeEntity i x y (KELP m)) kelp False
           in (s', Some r))"

definition addSeagrass :: "bool \<Rightarrow> 'i EntityManager \<Rightarrow> real \<Rightarrow> real \<Rightarrow> 'i EntityManager \<times> ref option" where
  "addSeagrass m s x y =
     (if \<not> canSpawn s (SEAGRASS m) then (s, None)
      else let (s', r) = construct_add s nextSeagrassId (\<lambda>i. AlgaeEntity i x y (SEAGRASS m)) seagrass False
           in (s', Some r))"

text \<open>\<open>addIsland\<close>: \<open>valid\<close> is the outcome of the placement search, \<open>x\<close>, \<open>y\<close> the place found.\<close>

definition addIsland :: "'i EntityManager \<Rightarrow> bool \<Rightarrow> real \<Rightarrow> real \<Rightarrow> 'i EntityManager \<times> ref option" where
  "addIsland s valid x y =
     (if length (pools s islands) \<ge> 8 then (s, None)
      else if \<not> valid then (s, None)
      else let (s', r) = construct_add s nextIslandId (\<lambda>i. StaticEntity i x y) islands False
           in (s', Some r))"

definition createEgg :: "'i EntityManager \<Rightarrow> real \<Rightarrow> real \<Rightarrow> 'i EntityManager \<times> ref" where
  "createEgg s x y = construct_add s nextEggId (\<lambda>i. StaticEntity i x y) eggs False"

definition addElixir :: "'i EntityManager \<Rightarrow> real \<Rightarrow> 'i EntityManager \<times> ref" where
  "addElixir s x = construct_add s nextElixirId (\<lambda>i. StaticEntity i x 50) elixirs False"

text \<open>The body of the timer callback of \<open>Egg.hatch\<close>.\<close>

definition hatch :: "bool \<Rightarrow> 'i EntityManager \<Rightarrow> ref \<Rightarrow> 'i EntityManager" where
  "hatch m s egg =
     (if \<not> canSpawn s (MALLARD m) then queueRemove s egg
      else
        let (s', r) = construct_add s nextDuckId
                        (\<lambda>i. BaseEntity i (ex (objs s egg)) (ey (objs s egg)) (MALLARD m)) ducks True
        in queueRemove s' egg)"

text \<open>The body of the timer callback of \<open>MammalEntity._breedWithPredator\<close>; \<open>d\<close> is the
  parent's descriptor.\<close>

definition breedCallback ::
  "'i EntityManager \<Rightarrow> descriptor \<Rightarrow> real \<Rightarrow> real \<Rightarrow> 'i EntityManager" where
  "breedCallback s d x y =
     (if \<not> canSpawn s d then s
      else fst (construct_add s nextPredatorId (\<lambda>i. BaseEntity i x y d) predators False))"

text \<open>
  The statements that open \<open>PreyEntity.update(dt, world, entities)\<close>: the age advances
  by \<open>dt\<close>, and a shrimp whose descriptor is a baby's and whose age has reached 10 gets
  the descriptor \<open>SPECIES.prey.SHRIMP\<close>. \<open>canSpawn\<close> is not asked. The statements that
  follow them in \<open>update\<close> move the shrimp, tell the food grid, consume the lifetime, may
  queue an alga and may set \<open>dead\<close>; none of them assigns a descriptor or changes a pool.
\<close>

definition PreyEntity_update_grow :: "bool \<Rightarrow> real \<Rightarrow> 'i EntityManager \<Rightarrow> ref \<Rightarrow> 'i EntityManager" where
  "PreyEntity_update_grow m dt s r =
     (let e = (objs s r)\<lparr>age := age (objs s r) + dt\<rparr>;
          e' = (case speciesDef e of
                  None \<Rightarrow> e
                | Some d \<Rightarrow> if isBaby d \<and> age e \<ge> 10 then e\<lparr>speciesDef := Some (SHRIMP m)\<rparr> else e)
      in s\<lparr>objs := (objs s)(r := e')\<rparr>)"

section \<open>game/Entities/BaseEntity.js\<close>

text \<open>
  \<open>moveFreely(dt, world)\<close>, with which \<open>FishEntity.update\<close> ends: \<open>this.x\<close> and \<open>this.y\<close>
  are assigned their sums with the step of this tick, and the direction may be turned.
  The two sums are the arguments \<open>x'\<close> and \<open>y'\<close> (speed and direction are not kept). The
  method calls nothing: no grid is told of the move.
\<close>

definition moveFreely :: "'i EntityManager \<Rightarrow> ref \<Rightarrow> real \<Rightarrow> real \<Rightarrow> 'i EntityManager" where
  "moveFreely s e x' y' = s\<lparr>objs := (objs s)(e := (objs s e)\<lparr>ex := x', ey := y'\<rparr>)\<rparr>"

section \<open>engine/Core.js\<close>

text \<open>
  The engine is generic in what a system is; a call \<open>system.update(dt, currentTime)\<close> is
  recorded as the triple of the system and the two arguments. \<open>handle\<close> is what
  \<open>requestAnimationFrame\<close> returns.
\<close>

record 'sys Engine =
  targetFPS :: real
  targetFrameMs :: real
  systems :: "'sys list"
  isRunning :: bool
  lastTime :: real
  rafId :: "nat option"

definition Engine_new :: "real \<Rightarrow> 'sys Engine" where
  "Engine_new fps =
     \<lparr>targetFPS = fps, targetFrameMs = 1000 / fps, systems = [], isRunning = False,
      lastTime = 0, rafId = None\<rparr>"

definition addSystem :: "'sys Engine \<Rightarrow> 'sys \<Rightarrow> 'sys Engine" where
  "addSystem e sys = e\<lparr>systems := systems e @ [sys]\<rparr>"

definition start :: "'sys Engine \<Rightarrow> nat \<Rightarrow> 'sys Engine" where
  "start e handle = (if isRunning e then e else e\<lparr>isRunning := True, rafId := Some handle\<rparr>)"

definition stop :: "'sys Engine \<Rightarrow> 'sys Engine" where
  "stop e = e\<lparr>isRunning := False\<rparr>"

text \<open>The remainder operator \<open>%\<close>: the quotient is truncated towards zero.\<close>

definition js_rem :: "real \<Rightarrow> real \<Rightarrow> real" where
  "js_rem a b = a - b * of_int (if 0 \<le> a / b then \<lfloor>a / b\<rfloor> else \<lceil>a / b\<rceil>)"

fun update_systems :: "'sys list \<Rightarrow> real \<Rightarrow> real \<Rightarrow> ('sys \<times> real \<times> real) list" where
  "update_systems [] dt currentTime = []"
| "update_systems (system # rest) dt currentTime =
     (system, dt, currentTime) # update_systems rest dt currentTime"

definition loop :: "'sys Engine \<Rightarrow> nat \<Rightarrow> real \<Rightarrow> 'sys Engine \<times> ('sys \<times> real \<times> real) list" where
  "loop e handle currentTime =
     (if \<not> isRunning e then (e, [])
      else
        let e1 = e\<lparr>rafId := Some handle\<rparr>;
            elapsed = currentTime - lastTime e1
        in if elapsed < targetFrameMs e1 then (e1, [])
           else
             let dt = min (elapsed / 1000) (1 / 10);
                 e2 = e1\<lparr>lastTime := currentTime - js_rem elapsed (targetFrameMs e1)\<rparr>
             in (e2, update_systems (systems e2) dt currentTime))"

section \<open>engine/Systems/PollutionSystem.js\<close>

text \<open>The loop over the algae: the lifetime is written back to the object, the rate of
  a descriptor that has one is added to \<open>delta\<close>, an expired alga is queued.\<close>

fun tick_algae :: "real \<Rightarrow> ref list \<Rightarrow> 'i EntityManager \<Rightarrow> real \<Rightarrow> 'i EntityManager \<times> real" where
  "tick_algae dt [] s delta = (s, delta)"
| "tick_algae dt (a # rest) s delta =
     (let s1 = s\<lparr>objs := (objs s)(a := (objs s a)\<lparr>lifetime := lifetime (objs s a) - dt\<rparr>)\<rparr>;
          delta1 = (case speciesDef (objs s1 a) of
                      None \<Rightarrow> delta
                    | Some d \<Rightarrow> (case pollutionRate d of
                                  None \<Rightarrow> delta
                                | Some rate \<Rightarrow> delta + rate * dt));
          s2 = (if lifetime (objs s1 a) \<le> 0 then queueRemove s1 a else s1)
      in tick_algae dt rest s2 delta1)"

definition PollutionSystem_update :: "bool \<Rightarrow> real \<Rightarrow> 'i EntityManager \<Rightarrow> 'i EntityManager" where
  "PollutionSystem_update isPaused dt s =
     (if isPaused then s
      else
        let algaePools = pools s algae @ pools s seagrass @ pools s kelp;
            (s1, delta) = tick_algae dt algaePools s 0;
            prev = waterPollution s1;
            s2 = s1\<lparr>waterPollution := max 0 (min 100 (waterPollution s1 + delta))\<rparr>
        in if \<bar>waterPollution s2 - prev\<bar> > 1 / 100
           then notify s2 (POLLUTION_CHANGED (waterPollution s2))
           else s2)"

section \<open>engine/EventBus.js\<close>

text \<open>
  A handler is a function object, compared by reference: it is modelled as an
  identifier, and what it does when called is given by a table of behaviours. The
  behaviours modelled are sequences of \<open>on\<close> and \<open>off\<close> calls on the bus that invokes the
  handler. Neither call replaces the array of a topic that has one, so the array
  \<open>emit\<close> iterates is always the one the map holds for the topic.
\<close>

type_synonym topic = string
type_synonym handler = nat
type_synonym EventBus = "topic \<rightharpoonup> handler list"

datatype action = On topic handler | Off topic handler

definition on :: "EventBus \<Rightarrow> topic \<Rightarrow> handler \<Rightarrow> EventBus" where
  "on b event cb =
     (let b1 = (case b event of None \<Rightarrow> b(event \<mapsto> []) | Some l \<Rightarrow> b)
      in b1(event \<mapsto> (case b1 event of None \<Rightarrow> [] | Some l \<Rightarrow> l) @ [cb]))"

definition off :: "EventBus \<Rightarrow> topic \<Rightarrow> handler \<Rightarrow> EventBus" where
  "off b event cb = (case b event of None \<Rightarrow> b | Some l \<Rightarrow> b(event \<mapsto> remove1 cb l))"

fun act :: "action \<Rightarrow> EventBus \<Rightarrow> EventBus" where
  "act (On event cb) b = on b event cb"
| "act (Off event cb) b = off b event cb"

definition call :: "(handler \<Rightarrow> action list) \<Rightarrow> handler \<Rightarrow> EventBus \<Rightarrow> EventBus" where
  "call behaviour cb b = fold act (behaviour cb) b"

text \<open>
  \<open>for (const cb of list) cb(payload)\<close>: the array iterator keeps an index; each step
  compares it with the current length of the array, reads the entry at the index and
  advances. A handler that keeps subscribing makes the loop run forever, so the loop
  takes fuel, one unit for each test of the index, and returns \<open>None\<close> when it runs
  out. The second component is the sequence of handlers invoked.
\<close>

fun dispatch ::
  "nat \<Rightarrow> (handler \<Rightarrow> action list) \<Rightarrow> topic \<Rightarrow> nat \<Rightarrow> EventBus \<Rightarrow> handler list
   \<Rightarrow> (EventBus \<times> handler list) option" where
  "dispatch 0 behaviour event i b invoked = None"
| "dispatch (Suc fuel) behaviour event i b invoked =
     (case b event of
        None \<Rightarrow> Some (b, invoked)
      | Some list \<Rightarrow>
          if i < length list
          then dispatch fuel behaviour event (i + 1) (call behaviour (list ! i) b)
                 (invoked @ [list ! i])
          else Some (b, invoked))"

definition emit ::
  "nat \<Rightarrow> (handler \<Rightarrow> action list) \<Rightarrow> EventBus \<Rightarrow> topic \<Rightarrow> (EventBus \<times> handler list) option" where
  "emit fuel behaviour b event =
     (case b event of
        None \<Rightarrow> Some (b, [])
      | Some list \<Rightarrow> dispatch fuel behaviour event 0 b [])"

section \<open>Properties of registry states used in the statements\<close>

text \<open>No bucket of the grid holds a reference twice.\<close>

definition buckets_distinct :: "'i SpatialGrid \<Rightarrow> bool" where
  "buckets_distinct g = (\<forall>k c. grid g k = Some c \<longrightarrow> distinct c)"

text \<open>The count the specification describes for \<open>canSpawn\<close>: the entities of all pools
  whose descriptor is \<open>d\<close>.\<close>

definition spec_liveCount :: "'i EntityManager \<Rightarrow> descriptor \<Rightarrow> nat" where
  "spec_liveCount s d =
     length (filter (\<lambda>e. speciesDef (objs s e) = Some d) (concat (map (pools s) poolNames)))"

text \<open>How often the pools hold a reference.\<close>

definition occurrences :: "'i EntityManager \<Rightarrow> ref \<Rightarrow> nat" where
  "occurrences s e = sum_list (map (\<lambda>k. count_list (pools s k) e) poolNames)"

section \<open>States used in the examples\<close>

text \<open>
  The examples use grids of cell size 1. Dividing a double by 1 gives the double
  itself, and \<open>Math.floor\<close> of a finite double is its integer floor, which the template
  prints as that integer: at cell size 1 the text for \<open>Math.floor(a / 1)\<close> is the floor
  of \<open>a\<close>.
\<close>

definition unitFloor :: "real \<Rightarrow> real \<Rightarrow> int" where
  "unitFloor a b = \<lfloor>a\<rfloor>"

text \<open>A store in which every object has the same fields and lies at \<open>(0.5, 0.5)\<close>.\<close>

definition twins :: store where
  "twins = (\<lambda>_. blank\<lparr>ex := 1 / 2, ey := 1 / 2\<rparr>)"

text \<open>A registry whose only entity, a shark, is in the pool named by the argument. The
  cap of sharks is 5; \<open>rare\<close> is a descriptor of the same kind with cap 1.\<close>

definition rare :: descriptor where
  "rare = species False ''fish_shark'' 1 300"

definition lone :: "poolKey \<Rightarrow> int EntityManager" where
  "lone k = (EntityManager_new 1 unitFloor)
     \<lparr>pools := (\<lambda>_. [])(k := [0]), objs := (\<lambda>_. BaseEntity 1 10 10 rare), fresh := 1\<rparr>"

text \<open>
  \<open>parked\<close>: a new registry with grids of cell size 1 after \<open>spawnFish\<close> of a salmon at
  \<open>(0.5, 0.5)\<close>; the salmon is entity 0, in the pool \<open>fish\<close> and in the fish grid.
  \<open>drifted\<close>: the registry after \<open>moveFreely\<close> has brought the salmon to \<open>(1.5, 0.5)\<close>,
  into the next cell.
\<close>

definition parked :: "int EntityManager" where
  "parked = fst (spawnFish False (EntityManager_new 1 unitFloor) (SALMON False) (1 / 2) (1 / 2))"

definition drifted :: "int EntityManager" where
  "drifted = moveFreely parked 0 (3 / 2) (1 / 2)"

text \<open>
  \<open>shrimps n\<close>: a new registry after \<open>n\<close> calls of \<open>addFood\<close> for the adult shrimp.
  \<open>nursery\<close>: the registry with 40 adult shrimps, the cap, after \<open>spawnBabyShrimp\<close>; the
  baby is entity 40. \<open>ticks n\<close>: the nursery after the baby's \<open>update\<close> has run \<open>n\<close> times
  with \<open>dt = 1/16\<close> (62.5 ms, a power of two: the age is exact in doubles as well).
\<close>

fun shrimps :: "nat \<Rightarrow> int EntityManager" where
  "shrimps 0 = EntityManager_new 1 unitFloor"
| "shrimps (Suc n) = fst (addFood (shrimps n) (SHRIMP False) 0)"

definition nursery :: "int EntityManager" where
  "nursery = fst (spawnBabyShrimp False (shrimps 40) 0 (1 / 2) (1 / 2))"

fun ticks :: "nat \<Rightarrow> int EntityManager" where
  "ticks 0 = nursery"
| "ticks (Suc n) = PreyEntity_update_grow False (1 / 16) (ticks n) 40"

text \<open>
  \<open>pond\<close>: a registry with two algae. Entity 0 is toxic algae with half a second left,
  entity 2 is kelp with its full lifetime; the pollution is at 99.98.
\<close>

definition pond :: "int EntityManager" where
  "pond = (EntityManager_new 1 unitFloor)
     \<lparr>pools := (\<lambda>_. [])(algae := [0], kelp := [2]),
      objs := (\<lambda>_. blank)(0 := (AlgaeEntity 1 0 0 (TOXIC False))\<lparr>lifetime := 1 / 2\<rparr>,
                           2 := AlgaeEntity 1 5 5 (KELP False)),
      fresh := 3, waterPollution := 9998 / 100\<rparr>"

section \<open>Buckets of the grid\<close>

lemma buckets_distinct_cell: "buckets_distinct g = (\<forall>k. distinct (cell g k))"
proof
  assume a: "buckets_distinct g"
  show "\<forall>k. distinct (cell g k)"
  proof
    fix k
    show "distinct (cell g k)"
    proof (cases "grid g k")
      case None
      then show ?thesis by (simp add: cell_def)
    next
      case (Some c)
      with a have "distinct c" unfolding buckets_distinct_def by blast
      with Some show ?thesis by (simp add: cell_def)
    qed
  qed
next
  assume a: "\<forall>k. distinct (cell g k)"
  show "buckets_distinct g"
    unfolding buckets_distinct_def
  proof (intro allI impI)
    fix k c
    assume "grid g k = Some c"
    then have "cell g k = c" by (simp add: cell_def)
    with a show "distinct c" by blast
  qed
qed

lemma count_list_remove1:
  "count_list (remove1 x l) e = (if x = e \<and> e \<in> set l then count_list l e - 1 else count_list l e)"
  by (induction l) auto

lemma cellSize_grid_add [simp]: "cellSize (grid_add h g e) = cellSize g"
  by (simp add: grid_add_def Let_def)

lemma cellSize_grid_remove [simp]: "cellSize (grid_remove h g e) = cellSize g"
  by (simp add: grid_remove_def Let_def split: option.split)

lemma cellSize_grid_update [simp]: "cellSize (grid_update h g e ox oy) = cellSize g"
  by (simp add: grid_update_def Let_def)

lemma floorDiv_grid_add [simp]: "floorDiv (grid_add h g e) = floorDiv g"
  by (simp add: grid_add_def Let_def)

lemma floorDiv_grid_remove [simp]: "floorDiv (grid_remove h g e) = floorDiv g"
  by (simp add: grid_remove_def Let_def split: option.split)

lemma floorDiv_grid_update [simp]: "floorDiv (grid_update h g e ox oy) = floorDiv g"
  by (simp add: grid_update_def Let_def)

lemma key_grid_add [simp]: "key (grid_add h g e) x y = key g x y"
  by (simp add: key_def)

lemma key_grid_remove [simp]: "key (grid_remove h g e) x y = key g x y"
  by (simp add: key_def)

lemma key_grid_update [simp]: "key (grid_update h g e ox oy) x y = key g x y"
  by (simp add: key_def)

lemma cell_grid_add:
  "cell (grid_add h g e) k =
     (if k = key g (ex (h e)) (ey (h e)) then cell g k @ [e] else cell g k)"
  by (simp add: grid_add_def cell_def Let_def split: option.split)

lemma cell_grid_remove:
  "cell (grid_remove h g e) k =
     (if k = key g (ex (h e)) (ey (h e)) then remove1 e (cell g k) else cell g k)"
  by (simp add: grid_remove_def cell_def Let_def split: option.split)

lemma cell_grid_update:
  "cell (grid_update h g e ox oy) k =
     (if key g ox oy = key g (ex (h e)) (ey (h e)) then cell g k
      else if k = key g (ex (h e)) (ey (h e)) then cell g k @ [e]
      else if k = key g ox oy then remove1 e (cell g k)
      else cell g k)"
  by (simp add: grid_update_def cell_def Let_def split: option.split)

text \<open>
  C8 (as amended). \<open>add\<close> and \<open>update\<close> push without looking for an entry that is already
  there, so the grid itself does not exclude duplicates. For every grid, duplicate-free
  or not: \<open>remove\<close> changes only the bucket of the entity's current position and
  deletes there one entry, the first that is the reference passed (none when there is
  none), so the entity is held once less and every entry for another reference stays,
  whatever the fields of its object. \<open>remove\<close> keeps a grid without duplicates so.
  \<open>add\<close> gives a grid without duplicates exactly when the grid had none and the bucket
  of the entity's position did not hold the entity. From a grid without duplicates,
  \<open>update\<close> gives one exactly when the old and the new key are equal (it does nothing
  then) or the bucket of the new position did not hold the entity.
\<close>

theorem grid_buckets_stay_distinct:
  "(\<forall>k. cell (grid_remove h g e) k =
          (if k = key g (ex (h e)) (ey (h e)) then remove1 e (cell g k) else cell g k))
   \<and> count_list (cell (grid_remove h g e) (key g (ex (h e)) (ey (h e)))) e
       = count_list (cell g (key g (ex (h e)) (ey (h e)))) e - 1
   \<and> (\<forall>k e'. e' \<noteq> e \<longrightarrow>
          count_list (cell (grid_remove h g e) k) e' = count_list (cell g k) e')
   \<and> (buckets_distinct g \<longrightarrow> buckets_distinct (grid_remove h g e))
   \<and> buckets_distinct (grid_add h g e)
       = (buckets_distinct g \<and> e \<notin> set (cell g (key g (ex (h e)) (ey (h e)))))
   \<and> (buckets_distinct g \<longrightarrow>
        buckets_distinct (grid_update h g e oldX oldY)
        = (key g oldX oldY = key g (ex (h e)) (ey (h e))
           \<or> e \<notin> set (cell g (key g (ex (h e)) (ey (h e))))))"
proof -
  let ?K = "key g (ex (h e)) (ey (h e))"
  have 1: "\<forall>k. cell (grid_remove h g e) k = (if k = ?K then remove1 e (cell g k) else cell g k)"
    by (intro allI) (rule cell_grid_remove)
  have 2: "count_list (cell (grid_remove h g e) ?K) e = count_list (cell g ?K) e - 1"
    by (simp add: cell_grid_remove count_list_remove1 count_list_0_iff)
  have 3: "\<forall>k e'. e' \<noteq> e \<longrightarrow>
          count_list (cell (grid_remove h g e) k) e' = count_list (cell g k) e'"
  proof (intro allI impI)
    fix k e' assume "e' \<noteq> e"
    then show "count_list (cell (grid_remove h g e) k) e' = count_list (cell g k) e'"
      by (simp add: cell_grid_remove count_list_remove1)
  qed
  have 4: "buckets_distinct g \<longrightarrow> buckets_distinct (grid_remove h g e)"
  proof
    assume "buckets_distinct g"
    then have d: "\<And>k. distinct (cell g k)" unfolding buckets_distinct_cell by blast
    show "buckets_distinct (grid_remove h g e)"
      unfolding buckets_distinct_cell
    proof
      fix k show "distinct (cell (grid_remove h g e) k)" by (simp add: cell_grid_remove d)
    qed
  qed
  have 5: "buckets_distinct (grid_add h g e) = (buckets_distinct g \<and> e \<notin> set (cell g ?K))"
  proof
    assume a: "buckets_distinct (grid_add h g e)"
    then have d: "\<And>k. distinct (cell (grid_add h g e) k)"
      unfolding buckets_distinct_cell by blast
    have "distinct (cell g k)" for k
      using d[of k] by (simp add: cell_grid_add split: if_splits)
    then have "buckets_distinct g" unfolding buckets_distinct_cell by blast
    moreover have "e \<notin> set (cell g ?K)" using d[of ?K] by (simp add: cell_grid_add)
    ultimately show "buckets_distinct g \<and> e \<notin> set (cell g ?K)" ..
  next
    assume a: "buckets_distinct g \<and> e \<notin> set (cell g ?K)"
    then have d: "\<And>k. distinct (cell g k)" unfolding buckets_distinct_cell by blast
    show "buckets_distinct (grid_add h g e)"
      unfolding buckets_distinct_cell
    proof
      fix k show "distinct (cell (grid_add h g e) k)" using a by (simp add: cell_grid_add d)
    qed
  qed
  have 6: "buckets_distinct g \<longrightarrow>
        buckets_distinct (grid_update h g e oldX oldY)
        = (key g oldX oldY = ?K \<or> e \<notin> set (cell g ?K))"
  proof
    assume g: "buckets_distinct g"
    then have d: "\<And>k. distinct (cell g k)" unfolding buckets_distinct_cell by blast
    show "buckets_distinct (grid_update h g e oldX oldY)
          = (key g oldX oldY = ?K \<or> e \<notin> set (cell g ?K))"
    proof (cases "key g oldX oldY = ?K")
      case True
      then have "grid_update h g e oldX oldY = g" by (simp add: grid_update_def Let_def)
      with g True show ?thesis by simp
    next
      case False
      show ?thesis
      proof
        assume "buckets_distinct (grid_update h g e oldX oldY)"
        then have "distinct (cell (grid_update h g e oldX oldY) ?K)"
          unfolding buckets_distinct_cell by blast
        then have "e \<notin> set (cell g ?K)" using False by (simp add: cell_grid_update)
        then show "key g oldX oldY = ?K \<or> e \<notin> set (cell g ?K)" ..
      next
        assume "key g oldX oldY = ?K \<or> e \<notin> set (cell g ?K)"
        with False have n: "e \<notin> set (cell g ?K)" by blast
        show "buckets_distinct (grid_update h g e oldX oldY)"
          unfolding buckets_distinct_cell
        proof
          fix k show "distinct (cell (grid_update h g e oldX oldY) k)"
            using n False by (simp add: cell_grid_update d)
        qed
      qed
    qed
  qed
  from 1 2 3 4 5 6 show ?thesis by (intro conjI)
qed

text \<open>Objects with equal fields at \<open>(0.5, 0.5)\<close> in a grid of cell size 1. With
  reference 0 in the grid, adding reference 2 keeps the bucket without duplicates and
  removing 0 leaves 2. From the bucket that holds reference 0 twice, \<open>remove\<close> takes one
  entry and leaves the other.\<close>

theorem grid_buckets_stay_distinct_witness:
  "buckets_distinct (grid_add twins (SpatialGrid_new 1 unitFloor) 0)
   \<and> 2 \<notin> set (cell (grid_add twins (SpatialGrid_new 1 unitFloor) 0)
                (key (grid_add twins (SpatialGrid_new 1 unitFloor) 0) (ex (twins 2)) (ey (twins 2))))
   \<and> buckets_distinct (grid_add twins (grid_add twins (SpatialGrid_new 1 unitFloor) 0) 2)
   \<and> buckets_distinct
        (grid_remove twins (grid_add twins (grid_add twins (SpatialGrid_new 1 unitFloor) 0) 2) 0)
   \<and> cell (grid_remove twins (grid_add twins (grid_add twins (SpatialGrid_new 1 unitFloor) 0) 2) 0)
        (0, 0) = [2]
   \<and> cell (grid_remove twins (grid_add twins (grid_add twins (SpatialGrid_new 1 unitFloor) 0) 0) 0)
        (0, 0) = [0]
   \<and> twins 0 = twins 2"
proof -
  let ?n = "SpatialGrid_new 1 unitFloor :: int SpatialGrid"
  let ?g = "grid_add twins ?n 0"
  have c0: "\<And>k. cell ?n k = []" by (simp add: cell_def SpatialGrid_new_def)
  have k: "\<And>r. key ?n (ex (twins r)) (ey (twins r)) = (0, 0)"
    by (simp add: key_def twins_def SpatialGrid_new_def unitFloor_def)
  have n: "buckets_distinct ?n"
    by (simp add: buckets_distinct_def SpatialGrid_new_def)
  note t0 = grid_buckets_stay_distinct[of twins ?n 0]
  have a: "buckets_distinct ?g" using t0 n by (simp add: c0)
  have b: "2 \<notin> set (cell ?g (key ?g (ex (twins 2)) (ey (twins 2))))"
    by (simp add: cell_grid_add c0 k)
  note t1 = grid_buckets_stay_distinct[of twins ?g 2]
  from t1 a b have c: "buckets_distinct (grid_add twins ?g 2)" by blast
  note t2 = grid_buckets_stay_distinct[of twins "grid_add twins ?g 2" 0]
  from t2 c have d: "buckets_distinct (grid_remove twins (grid_add twins ?g 2) 0)" by blast
  have e: "cell (grid_remove twins (grid_add twins ?g 2) 0) (0, 0) = [2]"
    by (simp add: cell_grid_remove cell_grid_add c0 k)
  have f: "cell (grid_remove twins (grid_add twins ?g 0) 0) (0, 0) = [0]"
    by (simp add: cell_grid_remove cell_grid_add c0 k)
  have i: "twins 0 = twins 2" by (simp add: twins_def)
  from a b c d e f i show ?thesis by (intro conjI)
qed

text \<open>C8 as stated fails: adding the same entity twice puts it twice into one bucket.\<close>

theorem grid_add_twice_counterexample:
  "cell (grid_add twins (grid_add twins (SpatialGrid_new 1 unitFloor) 0) 0) (0, 0) = [0, 0]
   \<and> \<not> buckets_distinct (grid_add twins (grid_add twins (SpatialGrid_new 1 unitFloor) 0) 0)"
proof -
  let ?n = "SpatialGrid_new 1 unitFloor :: int SpatialGrid"
  have c0: "\<And>k. cell ?n k = []" by (simp add: cell_def SpatialGrid_new_def)
  have k: "\<And>r. key ?n (ex (twins r)) (ey (twins r)) = (0, 0)"
    by (simp add: key_def twins_def SpatialGrid_new_def unitFloor_def)
  have a: "cell (grid_add twins (grid_add twins ?n 0) 0) (0, 0) = [0, 0]"
    by (simp add: cell_grid_add c0 k)
  have "\<not> distinct (cell (grid_add twins (grid_add twins ?n 0) 0) (0, 0))"
    by (simp add: a)
  then have "\<not> buckets_distinct (grid_add twins (grid_add twins ?n 0) 0)"
    unfolding buckets_distinct_cell by blast
  with a show ?thesis by (intro conjI)
qed

section \<open>The registry: counting, queueing, removing\<close>

lemma fold_count:
  "fold (\<lambda>e n. if P e then n + 1 else n) arr (n::nat) = n + length (filter P arr)"
  by (induction arr arbitrary: n) auto

lemma fold_count_arrays:
  "fold (\<lambda>arr n. fold (\<lambda>e n. if P e then n + 1 else n) arr n) arrs (n::nat)
   = n + length (filter P (concat arrs))"
  by (induction arrs arbitrary: n) (auto simp: fold_count)

lemma countSpecies_filter:
  "countSpecies s d = length (filter (sameSpecies (objs s) d) (concat (allArrays s)))"
  by (simp add: countSpecies_def fold_count_arrays)

lemma sameSpecies_ex:
  "sameSpecies h d e = (\<exists>d'. speciesDef (h e) = Some d' \<and> sid d' = sid d)"
  by (simp add: sameSpecies_def split: option.split)

lemma notify_fields [simp]:
  "pools (notify s ev) = pools s" "grids (notify s ev) = grids s"
  "objs (notify s ev) = objs s" "removeQueue (notify s ev) = removeQueue s"
  "waterPollution (notify s ev) = waterPollution s" "biodiversity (notify s ev) = biodiversity s"
  "fresh (notify s ev) = fresh s" "ids (notify s ev) = ids s"
  by (simp_all add: notify_def)

lemma remove_at_fields [simp]:
  "pools (remove_at s k e) = (pools s)(k := remove1 e (pools s k))"
  "objs (remove_at s k e) = objs s" "removeQueue (remove_at s k e) = removeQueue s"
  "waterPollution (remove_at s k e) = waterPollution s"
  "biodiversity (remove_at s k e) = biodiversity s"
  "fresh (remove_at s k e) = fresh s" "ids (remove_at s k e) = ids s"
  by (simp_all add: remove_at_def Let_def split: option.split)

lemma remove_at_grids:
  "grids (remove_at s k e) =
     (case GRID_MAP k of
        Some gk \<Rightarrow> (grids s)(gk := grid_remove (objs s) (grids s gk) e)
      | None \<Rightarrow> grids s)"
  by (simp add: remove_at_def Let_def split: option.split)

lemma remove_in_cases:
  "(remove_in ks s e = s \<and> (\<forall>k\<in>set ks. e \<notin> set (pools s k)))
   \<or> (\<exists>k\<in>set ks. e \<in> set (pools s k) \<and> remove_in ks s e = remove_at s k e)"
  by (induction ks) auto

lemma poolNames_all: "k \<in> set poolNames"
  by (cases k) (simp_all add: poolNames_def)

lemma remove_cases:
  "(remove s e = s \<and> (\<forall>k. e \<notin> set (pools s k)))
   \<or> (\<exists>k. e \<in> set (pools s k) \<and> remove s e = remove_at s k e)"
  using remove_in_cases[of poolNames s e] poolNames_all unfolding remove_def by blast

lemma remove_absent: "\<forall>k. e \<notin> set (pools s k) \<Longrightarrow> remove s e = s"
  using remove_cases[of s e] by blast

lemma remove_fields [simp]:
  "objs (remove s e) = objs s" "removeQueue (remove s e) = removeQueue s"
  "waterPollution (remove s e) = waterPollution s" "biodiversity (remove s e) = biodiversity s"
  "fresh (remove s e) = fresh s" "ids (remove s e) = ids s"
  using remove_cases[of s e] by auto

lemma queueRemove_fields [simp]:
  "pools (queueRemove s e) = pools s" "grids (queueRemove s e) = grids s"
  "objs (queueRemove s e) = objs s" "waterPollution (queueRemove s e) = waterPollution s"
  "biodiversity (queueRemove s e) = biodiversity s" "fresh (queueRemove s e) = fresh s"
  "ids (queueRemove s e) = ids s" "emitted (queueRemove s e) = emitted s"
  by (simp_all add: queueRemove_def)

lemma set_queueRemove [simp]: "set (removeQueue (queueRemove s e)) = insert e (set (removeQueue s))"
  by (auto simp: queueRemove_def)

lemma fold_remove_absent:
  "\<forall>e\<in>set q. \<forall>k. e \<notin> set (pools s k) \<Longrightarrow> fold (\<lambda>e s'. remove s' e) q s = s"
  by (induction q) (simp_all add: remove_absent)

text \<open>
  C1 (as amended). \<open>canSpawn(d)\<close> is true exactly when the number of entities in the
  pools of \<open>allArrays\<close> (every pool except \<open>islands\<close>) whose descriptor has the id of \<open>d\<close> is
  below \<open>d.MAX_COUNT\<close>; while that number does not exceed the cap, \<open>canSpawn(d)\<close> is false
  exactly when the number equals the cap.
\<close>

theorem canSpawn_iff_count_below_cap:
  "canSpawn s d =
     (length (filter (\<lambda>e. \<exists>d'. speciesDef (objs s e) = Some d' \<and> sid d' = sid d)
        (concat (map (pools s)
           [ducks, fish, food, eggs, algae, seagrass, kelp, octopi, elixirs, seaCreatures,
            predators]))) < MAX_COUNT d)
   \<and> (length (filter (\<lambda>e. \<exists>d'. speciesDef (objs s e) = Some d' \<and> sid d' = sid d)
         (concat (map (pools s)
            [ducks, fish, food, eggs, algae, seagrass, kelp, octopi, elixirs, seaCreatures,
             predators]))) \<le> MAX_COUNT d
       \<longrightarrow> (\<not> canSpawn s d) =
           (length (filter (\<lambda>e. \<exists>d'. speciesDef (objs s e) = Some d' \<and> sid d' = sid d)
              (concat (map (pools s)
                 [ducks, fish, food, eggs, algae, seagrass, kelp, octopi, elixirs, seaCreatures,
                  predators]))) = MAX_COUNT d))"
proof -
  have f: "sameSpecies (objs s) d = (\<lambda>e. \<exists>d'. speciesDef (objs s e) = Some d' \<and> sid d' = sid d)"
    by (rule ext) (rule sameSpecies_ex)
  have c: "countSpecies s d =
     length (filter (\<lambda>e. \<exists>d'. speciesDef (objs s e) = Some d' \<and> sid d' = sid d)
        (concat (map (pools s)
           [ducks, fish, food, eggs, algae, seagrass, kelp, octopi, elixirs, seaCreatures,
            predators])))"
    unfolding countSpecies_filter f allArrays_def arrayNames_def ..
  show ?thesis unfolding canSpawn_def c by linarith
qed

lemma lone_count:
  "length (filter (\<lambda>e. \<exists>d'. speciesDef (objs (lone k) e) = Some d' \<and> sid d' = sid rare)
        (concat (map (pools (lone k)) ks))) = length (filter (\<lambda>k'. k' = k) ks)"
  by (induction ks) (simp_all add: lone_def BaseEntity_def)

text \<open>One shark of cap 1 in the pool \<open>fish\<close>: the count equals the cap and \<open>canSpawn\<close> is
  false.\<close>

theorem canSpawn_iff_count_below_cap_witness:
  "length (filter (\<lambda>e. \<exists>d'. speciesDef (objs (lone fish) e) = Some d' \<and> sid d' = sid rare)
         (concat (map (pools (lone fish))
            [ducks, fish, food, eggs, algae, seagrass, kelp, octopi, elixirs, seaCreatures,
             predators]))) \<le> MAX_COUNT rare
   \<and> \<not> canSpawn (lone fish) rare"
proof -
  have n: "length (filter (\<lambda>e. \<exists>d'. speciesDef (objs (lone fish) e) = Some d' \<and> sid d' = sid rare)
         (concat (map (pools (lone fish))
            [ducks, fish, food, eggs, algae, seagrass, kelp, octopi, elixirs, seaCreatures,
             predators]))) = 1"
    unfolding lone_count by simp
  have m: "MAX_COUNT rare = 1" by (simp add: rare_def species_def)
  show ?thesis
    using canSpawn_iff_count_below_cap[of "lone fish" rare] unfolding n m by simp
qed

text \<open>C1 as stated fails: an entity in the pool \<open>islands\<close> is not counted. With the one
  shark of cap 1 in \<open>islands\<close>, the count over all pools equals the cap, and \<open>canSpawn\<close>
  is true.\<close>

theorem canSpawn_islands_counterexample:
  "canSpawn (lone islands) rare \<and> \<not> spec_liveCount (lone islands) rare < MAX_COUNT rare"
proof -
  have n: "countSpecies (lone islands) rare = 0"
    unfolding countSpecies_filter allArrays_def arrayNames_def sameSpecies_ex lone_count by simp
  have m: "MAX_COUNT rare = 1" by (simp add: rare_def species_def)
  have l: "spec_liveCount (lone islands) rare = 1"
    by (simp add: spec_liveCount_def poolNames_def lone_def BaseEntity_def)
  show ?thesis by (simp add: canSpawn_def n m l)
qed

text \<open>
  C6. \<open>remove\<close> of an entity that no pool holds returns the registry as it is (pools,
  grids, environment, notifications). \<open>queueRemove\<close> changes nothing but the queue. A
  flush whose queued entities are all absent from the pools only empties the queue, and
  a flush right after a flush changes nothing. No operation here has an error path.
\<close>

theorem stale_removal_is_noop:
  "((\<forall>k. e \<notin> set (pools s k)) \<longrightarrow> remove s e = s)
   \<and> pools (queueRemove s e) = pools s \<and> grids (queueRemove s e) = grids s
   \<and> waterPollution (queueRemove s e) = waterPollution s
   \<and> biodiversity (queueRemove s e) = biodiversity s
   \<and> objs (queueRemove s e) = objs s \<and> emitted (queueRemove s e) = emitted s
   \<and> ((\<forall>x\<in>set (removeQueue s). \<forall>k. x \<notin> set (pools s k))
        \<longrightarrow> flushRemovals s = s\<lparr>removeQueue := []\<rparr>)
   \<and> flushRemovals (flushRemovals s) = flushRemovals s"
proof -
  have 1: "(\<forall>k. e \<notin> set (pools s k)) \<longrightarrow> remove s e = s"
    using remove_absent by blast
  have 2: "(\<forall>x\<in>set (removeQueue s). \<forall>k. x \<notin> set (pools s k))
        \<longrightarrow> flushRemovals s = s\<lparr>removeQueue := []\<rparr>"
    by (simp add: flushRemovals_def fold_remove_absent)
  have 3: "flushRemovals (flushRemovals s) = flushRemovals s"
    by (simp add: flushRemovals_def)
  from 1 2 3 show ?thesis by simp
qed

text \<open>The registry with one shark in \<open>fish\<close>: reference 7 is in no pool.\<close>

theorem stale_removal_is_noop_witness:
  "(\<forall>k. 7 \<notin> set (pools (lone fish) k)) \<and> remove (lone fish) 7 = lone fish
   \<and> removeQueue (queueRemove (lone fish) 7) = [7]
   \<and> flushRemovals (queueRemove (lone fish) 7) = (queueRemove (lone fish) 7)\<lparr>removeQueue := []\<rparr>"
proof -
  have a: "\<forall>k. 7 \<notin> set (pools (lone fish) k)" by (simp add: lone_def)
  have q: "removeQueue (queueRemove (lone fish) 7) = [7]"
    by (simp add: queueRemove_def lone_def EntityManager_new_def)
  have b: "\<forall>x\<in>set (removeQueue (queueRemove (lone fish) 7)). \<forall>k. x \<notin> set (pools (queueRemove (lone fish) 7) k)"
    using a by (simp add: q)
  note t1 = stale_removal_is_noop[of 7 "lone fish"]
  note t2 = stale_removal_is_noop[of 7 "queueRemove (lone fish) 7"]
  from t1 a have c: "remove (lone fish) 7 = lone fish" by blast
  from t2 b have d: "flushRemovals (queueRemove (lone fish) 7) = (queueRemove (lone fish) 7)\<lparr>removeQueue := []\<rparr>"
    by blast
  from a c q d show ?thesis by (intro conjI)
qed

section \<open>The removal queue\<close>

lemma sum_list_map_upd:
  "distinct ks \<Longrightarrow> k \<in> set ks \<Longrightarrow>
   sum_list (map (f(k := v)) ks) + f k = sum_list (map f ks) + (v::nat)"
  by (induction ks) auto

lemma poolNames_distinct: "distinct poolNames"
  by (simp add: poolNames_def)

lemma count_pos_mem: "e \<in> set l \<Longrightarrow> 0 < count_list l e"
  by (induction l) auto

lemma occurrences_pos: "e \<in> set (pools s k) \<Longrightarrow> 0 < occurrences s e"
proof -
  assume a: "e \<in> set (pools s k)"
  have "count_list (pools s k) e \<le> occurrences s e"
    unfolding occurrences_def using poolNames_all[of k]
    by (intro member_le_sum_list) auto
  with count_pos_mem[OF a] show ?thesis by linarith
qed

lemma occurrences_remove_at:
  assumes "x \<in> set (pools s k)"
  shows "occurrences (remove_at s k x) e = (if x = e then occurrences s e - 1 else occurrences s e)"
proof -
  let ?f = "\<lambda>k. count_list (pools s k) e"
  have eq: "(\<lambda>k'. count_list (pools (remove_at s k x) k') e)
            = ?f(k := count_list (remove1 x (pools s k)) e)"
    by (rule ext) simp
  have s: "occurrences (remove_at s k x) e + ?f k
           = occurrences s e + count_list (remove1 x (pools s k)) e"
    unfolding occurrences_def eq
    by (rule sum_list_map_upd[OF poolNames_distinct poolNames_all])
  show ?thesis
  proof (cases "x = e")
    case True
    with assms have "0 < ?f k" by (simp add: count_pos_mem)
    with s True assms show ?thesis by (simp add: count_list_remove1)
  next
    case False
    with s show ?thesis by (simp add: count_list_remove1)
  qed
qed

lemma occurrences_remove:
  "occurrences (remove s x) e =
     (if x = e \<and> (\<exists>k. e \<in> set (pools s k)) then occurrences s e - 1 else occurrences s e)"
  using remove_cases[of s x] by (auto simp: occurrences_remove_at)

lemma mem_remove_at_other:
  "x \<noteq> e \<Longrightarrow> (e \<in> set (pools (remove_at s k x) k')) = (e \<in> set (pools s k'))"
  by simp

lemma mem_remove_other:
  "x \<noteq> e \<Longrightarrow> (e \<in> set (pools (remove s x) k')) = (e \<in> set (pools s k'))"
  using remove_cases[of s x] mem_remove_at_other[of x e s _ k'] by metis

lemma remove_keeps_members:
  "x \<noteq> e \<Longrightarrow> (\<exists>k. e \<in> set (pools (remove s x) k)) = (\<exists>k. e \<in> set (pools s k))"
  by (simp add: mem_remove_other)

lemma count_list_distinct:
  "distinct l \<Longrightarrow> count_list l e = (if e \<in> set l then 1 else 0)"
  by (induction l) auto

lemma occurrences_fold_other:
  "e \<notin> set q \<Longrightarrow> occurrences (fold (\<lambda>x s'. remove s' x) q s) e = occurrences s e"
  by (induction q arbitrary: s) (auto simp: occurrences_remove)

lemma occurrences_fold:
  "distinct q \<Longrightarrow> e \<in> set q \<Longrightarrow> \<exists>k. e \<in> set (pools s k) \<Longrightarrow>
   occurrences (fold (\<lambda>x s'. remove s' x) q s) e + 1 = occurrences s e"
proof (induction q arbitrary: s)
  case Nil
  then show ?case by simp
next
  case (Cons x q)
  show ?case
  proof (cases "x = e")
    case True
    with Cons.prems have "e \<notin> set q" by simp
    then have "occurrences (fold (\<lambda>x s'. remove s' x) q (remove s e)) e = occurrences (remove s e) e"
      by (rule occurrences_fold_other)
    moreover have "occurrences (remove s e) e = occurrences s e - 1"
      using Cons.prems(3) by (simp add: occurrences_remove)
    moreover have "0 < occurrences s e" using Cons.prems(3) occurrences_pos by blast
    ultimately show ?thesis using True by simp
  next
    case False
    with Cons.prems have "distinct q" "e \<in> set q" by auto
    moreover have "\<exists>k. e \<in> set (pools (remove s x) k)"
      using Cons.prems(3) remove_keeps_members[OF False] by blast
    ultimately have "occurrences (fold (\<lambda>x s'. remove s' x) q (remove s x)) e + 1
        = occurrences (remove s x) e" by (rule Cons.IH)
    with False show ?thesis by (simp add: occurrences_remove)
  qed
qed

lemma occurrences_queue [simp]: "occurrences (s\<lparr>removeQueue := q\<rparr>) e = occurrences s e"
  by (simp add: occurrences_def)

text \<open>
  C7. \<open>queueRemove(e)\<close> twice gives the queue of \<open>queueRemove(e)\<close> once; a queue without
  repetitions stays without repetitions, so it holds \<open>e\<close> once; and one flush of such a
  queue takes exactly one entry for a queued entity \<open>e\<close> that some pool holds out of the
  pools.
\<close>

theorem queueRemove_idempotent:
  "queueRemove (queueRemove s e) e = queueRemove s e
   \<and> (distinct (removeQueue s) \<longrightarrow>
        distinct (removeQueue (queueRemove s e))
        \<and> count_list (removeQueue (queueRemove s e)) e = 1)
   \<and> (distinct (removeQueue s) \<and> e \<in> set (removeQueue s) \<and> (\<exists>k. e \<in> set (pools s k)) \<longrightarrow>
        occurrences (flushRemovals s) e + 1 = occurrences s e)"
proof -
  have 1: "queueRemove (queueRemove s e) e = queueRemove s e"
    by (simp add: queueRemove_def)
  have 2: "distinct (removeQueue s) \<longrightarrow>
        distinct (removeQueue (queueRemove s e))
        \<and> count_list (removeQueue (queueRemove s e)) e = 1"
    by (auto simp: queueRemove_def count_list_distinct)
  have 3: "distinct (removeQueue s) \<and> e \<in> set (removeQueue s) \<and> (\<exists>k. e \<in> set (pools s k)) \<longrightarrow>
        occurrences (flushRemovals s) e + 1 = occurrences s e"
  proof (intro impI, elim conjE)
    assume "distinct (removeQueue s)" "e \<in> set (removeQueue s)" "\<exists>k. e \<in> set (pools s k)"
    then have "occurrences (fold (\<lambda>x s'. remove s' x) (removeQueue s) s) e + 1 = occurrences s e"
      by (rule occurrences_fold)
    then show "occurrences (flushRemovals s) e + 1 = occurrences s e"
      by (simp add: flushRemovals_def)
  qed
  from 1 2 3 show ?thesis by (intro conjI)
qed

text \<open>The one shark of the pool \<open>fish\<close>, queued twice, then flushed.\<close>

theorem queueRemove_idempotent_witness:
  "distinct (removeQueue (queueRemove (lone fish) 0))
   \<and> 0 \<in> set (removeQueue (queueRemove (lone fish) 0))
   \<and> (\<exists>k. 0 \<in> set (pools (queueRemove (lone fish) 0) k))
   \<and> removeQueue (queueRemove (queueRemove (lone fish) 0) 0) = [0]
   \<and> occurrences (queueRemove (lone fish) 0) 0 = 1
   \<and> occurrences (flushRemovals (queueRemove (queueRemove (lone fish) 0) 0)) 0 = 0"
proof -
  let ?s = "queueRemove (lone fish) 0"
  have q: "removeQueue ?s = [0]" by (simp add: queueRemove_def lone_def EntityManager_new_def)
  have a: "distinct (removeQueue ?s)" by (simp add: q)
  have b: "0 \<in> set (removeQueue ?s)" by (simp add: q)
  have c: "\<exists>k. 0 \<in> set (pools ?s k)" by (rule exI[of _ fish]) (simp add: lone_def)
  have o: "occurrences ?s 0 = 1" by (simp add: occurrences_def poolNames_def lone_def)
  note t0 = queueRemove_idempotent[of "lone fish" 0]
  note t = queueRemove_idempotent[of ?s 0]
  from t0 have i: "queueRemove ?s 0 = ?s" by (rule conjunct1)
  from t a b c have "occurrences (flushRemovals ?s) 0 + 1 = occurrences ?s 0" by blast
  with o have f: "occurrences (flushRemovals ?s) 0 = 0" by simp
  from a b c q o f show ?thesis by (simp add: i)
qed

section \<open>Population caps\<close>

lemma countSpecies_sum:
  "countSpecies s d =
     sum_list (map (\<lambda>k. length (filter (sameSpecies (objs s) d) (pools s k))) arrayNames)"
  by (simp add: countSpecies_filter allArrays_def length_concat comp_def
        filter_concat)

lemma countSpecies_food_only:
  "pools s = (\<lambda>_. [])(food := l) \<Longrightarrow>
   countSpecies s d = length (filter (sameSpecies (objs s) d) l)"
  by (simp add: countSpecies_sum arrayNames_def)

lemma spec_liveCount_food_only:
  "pools s = (\<lambda>_. [])(food := l) \<Longrightarrow>
   spec_liveCount s d = length (filter (\<lambda>e. speciesDef (objs s e) = Some d) l)"
  by (simp add: spec_liveCount_def poolNames_def)

lemma add_fields:
  "pools (add s e k u) = (pools s)(k := pools s k @ [e])"
  "objs (add s e k u) = objs s" "removeQueue (add s e k u) = removeQueue s"
  "fresh (add s e k u) = fresh s"
  "grids (add s e k u) =
     (case GRID_MAP k of
        Some gk \<Rightarrow> if u then (grids s)(gk := grid_add (objs s) (grids s gk) e) else grids s
      | None \<Rightarrow> grids s)"
  by (simp_all add: add_def Let_def split: option.split)

lemma construct_add_fields:
  "pools (fst (construct_add s c mk k u)) = (pools s)(k := pools s k @ [fresh s])"
  "objs (fst (construct_add s c mk k u)) = (objs s)(fresh s := mk (ids s c))"
  "fresh (fst (construct_add s c mk k u)) = Suc (fresh s)"
  by (simp_all add: construct_add_def postinc_def new_obj_def add_fields Let_def)

lemma species_of_entities [simp]:
  "speciesDef (BaseEntity i x y d) = Some d" "speciesDef (AlgaeEntity i x y d) = Some d"
  "speciesDef (PreyEntity i x y d) = Some d" "age (PreyEntity i x y d) = 0"
  by (simp_all add: BaseEntity_def AlgaeEntity_def PreyEntity_def)

lemma shrimp_descriptors:
  "MAX_COUNT (SHRIMP False) = 40" "MAX_COUNT (SHRIMP_B False) = 40"
  "sid (SHRIMP False) \<noteq> sid (SHRIMP_B False)" "isBaby (SHRIMP_B False)"
  "SHRIMP_B False \<noteq> SHRIMP False"
  by (auto simp add: SHRIMP_def SHRIMP_B_def species_def)

lemma filter_all: "\<forall>x\<in>set l. P x \<Longrightarrow> filter P l = l"
  by (induction l) auto

lemma filter_none: "\<forall>x\<in>set l. \<not> P x \<Longrightarrow> filter P l = []"
  by (induction l) auto

text \<open>The registry after \<open>n\<close> adult shrimps, up to the cap: they are the entities
  \<open>0, ..., n - 1\<close> of the pool \<open>food\<close>.\<close>

lemma shrimps_shape:
  "n \<le> 40 \<Longrightarrow>
   pools (shrimps n) = (\<lambda>_. [])(food := [0..<n]) \<and> fresh (shrimps n) = n
   \<and> (\<forall>r<n. speciesDef (objs (shrimps n) r) = Some (SHRIMP False))"
proof (induction n)
  case 0
  show ?case by (simp add: EntityManager_new_def)
next
  case (Suc n)
  from Suc.prems have "n \<le> 40" by simp
  note ih = Suc.IH[OF this]
  note p = ih[THEN conjunct1] and f = ih[THEN conjunct2, THEN conjunct1]
    and sp = ih[THEN conjunct2, THEN conjunct2]
  have "filter (sameSpecies (objs (shrimps n)) (SHRIMP False)) [0..<n] = [0..<n]"
    using sp by (intro filter_all) (simp add: sameSpecies_def)
  then have "countSpecies (shrimps n) (SHRIMP False) = n"
    by (simp add: countSpecies_food_only[OF p])
  with Suc.prems have can: "canSpawn (shrimps n) (SHRIMP False)"
    by (simp add: canSpawn_def shrimp_descriptors)
  have step: "shrimps (Suc n)
      = fst (construct_add (shrimps n) nextFoodId (\<lambda>i. PreyEntity i 0 50 (SHRIMP False)) food False)"
    using can by (simp add: addFood_def split_def Let_def)
  show ?case
    unfolding step construct_add_fields p f using sp by (auto simp: less_Suc_eq)
qed

lemma nursery_shape:
  "pools nursery = (\<lambda>_. [])(food := [0..<40] @ [40])"
  "\<forall>r<40. speciesDef (objs nursery r) = Some (SHRIMP False)"
  "speciesDef (objs nursery 40) = Some (SHRIMP_B False)"
  "age (objs nursery 40) = 0"
proof -
  have "(40::nat) \<le> 40" by simp
  note s = shrimps_shape[OF this]
  note p = s[THEN conjunct1] and f = s[THEN conjunct2, THEN conjunct1]
    and sp = s[THEN conjunct2, THEN conjunct2]
  have "filter (sameSpecies (objs (shrimps 40)) (SHRIMP_B False)) [0..<40] = []"
    using sp shrimp_descriptors(3) by (intro filter_none) (simp add: sameSpecies_def)
  then have "countSpecies (shrimps 40) (SHRIMP_B False) = 0"
    by (simp add: countSpecies_food_only[OF p])
  then have can: "canSpawn (shrimps 40) (SHRIMP_B False)"
    by (simp add: canSpawn_def shrimp_descriptors)
  have step: "nursery
      = fst (construct_add (shrimps 40) nextFoodId
               (\<lambda>i. PreyEntity i (1 / 2) (max (0 + 10) (1 / 2)) (SHRIMP_B False)) food True)"
    using can by (simp add: nursery_def spawnBabyShrimp_def split_def Let_def)
  show "pools nursery = (\<lambda>_. [])(food := [0..<40] @ [40])"
    unfolding step construct_add_fields p f by simp
  show "\<forall>r<40. speciesDef (objs nursery r) = Some (SHRIMP False)"
    unfolding step construct_add_fields f using sp by simp
  show "speciesDef (objs nursery 40) = Some (SHRIMP_B False)"
    unfolding step construct_add_fields f by simp
  show "age (objs nursery 40) = 0"
    unfolding step construct_add_fields f by simp
qed

lemma grow_fields:
  "pools (PreyEntity_update_grow m dt s r) = pools s"
  "r' \<noteq> r \<Longrightarrow> objs (PreyEntity_update_grow m dt s r) r' = objs s r'"
  "age (objs (PreyEntity_update_grow m dt s r) r) = age (objs s r) + dt"
  by (simp_all add: PreyEntity_update_grow_def Let_def split: option.split)

lemma grow_species:
  "speciesDef (objs s r) = Some d \<Longrightarrow>
   speciesDef (objs (PreyEntity_update_grow m dt s r) r)
   = (if isBaby d \<and> age (objs s r) + dt \<ge> 10 then Some (SHRIMP m) else Some d)"
  by (simp add: PreyEntity_update_grow_def Let_def)

text \<open>For 159 ticks of 1/16 s the baby stays a baby; its age is the number of ticks
  over 16.\<close>

lemma ticks_shape:
  "n \<le> 159 \<Longrightarrow>
   pools (ticks n) = pools nursery \<and> (\<forall>r<40. objs (ticks n) r = objs nursery r)
   \<and> speciesDef (objs (ticks n) 40) = Some (SHRIMP_B False)
   \<and> age (objs (ticks n) 40) = real n / 16"
proof (induction n)
  case 0
  show ?case by (simp add: nursery_shape)
next
  case (Suc n)
  from Suc.prems have "n \<le> 159" by simp
  note i = Suc.IH[OF this]
  note ih = i[THEN conjunct1] i[THEN conjunct2, THEN conjunct1]
    i[THEN conjunct2, THEN conjunct2, THEN conjunct1]
    i[THEN conjunct2, THEN conjunct2, THEN conjunct2]
  have young: "\<not> (real n / 16 + 1 / 16 \<ge> 10)" using Suc.prems by (simp add: field_simps)
  have 1: "pools (ticks (Suc n)) = pools nursery" by (simp add: grow_fields ih)
  have 2: "\<forall>r<40. objs (ticks (Suc n)) r = objs nursery r" by (simp add: grow_fields ih)
  have 3: "speciesDef (objs (ticks (Suc n)) 40) = Some (SHRIMP_B False)"
    using young by (simp add: grow_species[OF ih(3)] ih(4))
  have 4: "age (objs (ticks (Suc n)) 40) = real (Suc n) / 16"
    by (simp add: grow_fields ih field_simps)
  from 1 2 3 4 show ?case by (intro conjI)
qed

lemma ticks_159:
  "pools (ticks 159) = (\<lambda>_. [])(food := [0..<40] @ [40])"
  "\<forall>r<40. speciesDef (objs (ticks 159) r) = Some (SHRIMP False)"
  "speciesDef (objs (ticks 159) 40) = Some (SHRIMP_B False)"
  "age (objs (ticks 159) 40) = 159 / 16"
proof -
  have "(159::nat) \<le> 159" by simp
  note t = ticks_shape[OF this]
  show "pools (ticks 159) = (\<lambda>_. [])(food := [0..<40] @ [40])"
    using t[THEN conjunct1] by (simp only: nursery_shape)
  show "\<forall>r<40. speciesDef (objs (ticks 159) r) = Some (SHRIMP False)"
    using t[THEN conjunct2, THEN conjunct1] nursery_shape(2) by simp
  show "speciesDef (objs (ticks 159) 40) = Some (SHRIMP_B False)"
    by (rule t[THEN conjunct2, THEN conjunct2, THEN conjunct1])
  show "age (objs (ticks 159) 40) = 159 / 16"
    using t[THEN conjunct2, THEN conjunct2, THEN conjunct2] by simp
qed

lemma ticks_160:
  "pools (ticks 160) = (\<lambda>_. [])(food := [0..<40] @ [40])"
  "\<forall>r<40. speciesDef (objs (ticks 160) r) = Some (SHRIMP False)"
  "speciesDef (objs (ticks 160) 40) = Some (SHRIMP False)"
proof -
  have s: "ticks 160 = PreyEntity_update_grow False (1 / 16) (ticks 159) 40"
    using ticks.simps(2)[of 159] by simp
  show "pools (ticks 160) = (\<lambda>_. [])(food := [0..<40] @ [40])"
    unfolding s by (simp add: grow_fields ticks_159)
  show "\<forall>r<40. speciesDef (objs (ticks 160) r) = Some (SHRIMP False)"
    unfolding s using ticks_159(2) by (simp add: grow_fields)
  show "speciesDef (objs (ticks 160) 40) = Some (SHRIMP False)"
    unfolding s by (simp add: grow_species[OF ticks_159(3)] ticks_159(4) shrimp_descriptors)
qed

text \<open>
  C3, at a state the program reaches: the cap of adult shrimps is 40. Forty adult
  shrimps are spawned into a new registry, after which \<open>canSpawn\<close> is false for the adult
  shrimp; a baby shrimp is spawned (its own species, within its own cap). After 159
  ticks of 1/16 s the registry counts 40 adult shrimps; the 160th \<open>update\<close> of the baby
  makes it an adult with no \<open>canSpawn\<close> test, and the registry counts 41, by
  \<open>countSpecies\<close> and by the count of the entities that carry the descriptor.
\<close>

theorem cap_exceeded_when_baby_shrimp_grows:
  "MAX_COUNT (SHRIMP False) = 40
   \<and> countSpecies (shrimps 40) (SHRIMP False) = 40
   \<and> \<not> canSpawn (shrimps 40) (SHRIMP False)
   \<and> countSpecies (ticks 159) (SHRIMP False) = 40
   \<and> countSpecies (ticks 160) (SHRIMP False) = 41
   \<and> spec_liveCount (ticks 160) (SHRIMP False) = 41"
proof -
  have "(40::nat) \<le> 40" by simp
  note s = shrimps_shape[OF this]
  note p = s[THEN conjunct1] and sp = s[THEN conjunct2, THEN conjunct2]
  have "filter (sameSpecies (objs (shrimps 40)) (SHRIMP False)) [0..<40] = [0..<40]"
    using sp by (intro filter_all) (simp add: sameSpecies_def)
  then have a: "countSpecies (shrimps 40) (SHRIMP False) = 40"
    by (simp add: countSpecies_food_only[OF p])
  then have b: "\<not> canSpawn (shrimps 40) (SHRIMP False)"
    by (simp add: canSpawn_def shrimp_descriptors)
  have "filter (sameSpecies (objs (ticks 159)) (SHRIMP False)) [0..<40] = [0..<40]"
    using ticks_159(2) by (intro filter_all) (simp add: sameSpecies_def)
  moreover have "\<not> sameSpecies (objs (ticks 159)) (SHRIMP False) 40"
    using shrimp_descriptors(3) by (simp add: sameSpecies_def ticks_159(3))
  ultimately have c: "countSpecies (ticks 159) (SHRIMP False) = 40"
    by (simp add: countSpecies_food_only[OF ticks_159(1)])
  have "filter (sameSpecies (objs (ticks 160)) (SHRIMP False)) [0..<40] = [0..<40]"
    using ticks_160(2) by (intro filter_all) (simp add: sameSpecies_def)
  moreover have "sameSpecies (objs (ticks 160)) (SHRIMP False) 40"
    by (simp add: sameSpecies_def ticks_160(3))
  ultimately have d: "countSpecies (ticks 160) (SHRIMP False) = 41"
    by (simp add: countSpecies_food_only[OF ticks_160(1)])
  have "filter (\<lambda>e. speciesDef (objs (ticks 160) e) = Some (SHRIMP False)) [0..<40] = [0..<40]"
    using ticks_160(2) by (intro filter_all) simp
  then have e: "spec_liveCount (ticks 160) (SHRIMP False) = 41"
    by (simp add: spec_liveCount_food_only[OF ticks_160(1)] ticks_160(3))
  from shrimp_descriptors(1) a b c d e show ?thesis by (intro conjI)
qed

section \<open>Flushing the removal queue\<close>

lemma cell_remove_at:
  "cell (grids (remove_at s k e) gk) kk =
     (if GRID_MAP k = Some gk \<and> kk = key (grids s gk) (ex (objs s e)) (ey (objs s e))
      then remove1 e (cell (grids s gk) kk) else cell (grids s gk) kk)"
  by (cases "GRID_MAP k") (simp_all add: remove_at_grids cell_grid_remove)

lemma flushRemovals_fields [simp]:
  "removeQueue (flushRemovals s) = []"
  "pools (flushRemovals s) = pools (fold (\<lambda>e s'. remove s' e) (removeQueue s) s)"
  "grids (flushRemovals s) = grids (fold (\<lambda>e s'. remove s' e) (removeQueue s) s)"
  by (simp_all add: flushRemovals_def)

lemma parked_fields:
  "pools parked = (\<lambda>_. [])(fish := [0])"
  "objs parked = (\<lambda>_. blank)(0 := BaseEntity 1 (1 / 2) (1 / 2) (SALMON False))"
  "removeQueue parked = []"
  "grids parked = (\<lambda>_. SpatialGrid_new 1 unitFloor)
     (grid_fish := grid_add ((\<lambda>_. blank)(0 := BaseEntity 1 (1 / 2) (1 / 2) (SALMON False)))
        (SpatialGrid_new 1 unitFloor) 0)"
proof -
  let ?n = "EntityManager_new 1 unitFloor :: int EntityManager"
  have "countSpecies ?n (SALMON False) = 0"
    by (simp add: countSpecies_sum EntityManager_new_def)
  then have can: "canSpawn ?n (SALMON False)"
    by (simp add: canSpawn_def SALMON_def species_def)
  have k: "\<not> isOctopus (SALMON False)" "sid (SALMON False) \<in> set (mainFish False)"
    by (simp_all add: SALMON_def species_def mainFish_def)
  have step: "parked = add (fst (new_obj (snd (postinc nextFishId ?n))
       (BaseEntity (fst (postinc nextFishId ?n)) (1 / 2) (1 / 2) (SALMON False)))) 0 fish True"
    using can k by (simp add: parked_def spawnFish_def split_def Let_def new_obj_def
        postinc_def EntityManager_new_def)
  show "pools parked = (\<lambda>_. [])(fish := [0])"
    unfolding step by (simp add: add_fields new_obj_def postinc_def EntityManager_new_def)
  show "objs parked = (\<lambda>_. blank)(0 := BaseEntity 1 (1 / 2) (1 / 2) (SALMON False))"
    unfolding step by (simp add: add_fields new_obj_def postinc_def EntityManager_new_def)
  show "removeQueue parked = []"
    unfolding step by (simp add: add_fields new_obj_def postinc_def EntityManager_new_def)
  show "grids parked = (\<lambda>_. SpatialGrid_new 1 unitFloor)
     (grid_fish := grid_add ((\<lambda>_. blank)(0 := BaseEntity 1 (1 / 2) (1 / 2) (SALMON False)))
        (SpatialGrid_new 1 unitFloor) 0)"
    unfolding step by (simp add: add_fields new_obj_def postinc_def EntityManager_new_def)
qed

lemma parked_cell:
  "cell (grids parked gk) k = (if gk = grid_fish \<and> k = (0, 0) then [0] else [])"
proof -
  have c0: "\<And>k. cell (SpatialGrid_new 1 unitFloor :: int SpatialGrid) k = []"
    by (simp add: cell_def SpatialGrid_new_def)
  have k0: "key (SpatialGrid_new 1 unitFloor) (1 / 2) (1 / 2) = (0, 0)"
    by (simp add: key_def SpatialGrid_new_def unitFloor_def)
  show ?thesis
    by (simp add: parked_fields cell_grid_add c0 k0 BaseEntity_def)
qed

text \<open>
  C2, at a state the program reaches. A salmon is spawned at \<open>(0.5, 0.5)\<close> into a
  registry whose grids have cell size 1: it is in the pool \<open>fish\<close> and in bucket \<open>(0, 0)\<close>
  of the fish grid. \<open>moveFreely\<close> brings it to \<open>(1.5, 0.5)\<close>, whose key is \<open>(1, 0)\<close>; the
  grid is not told. The salmon is queued for removal and the queue is flushed. Then the
  pool \<open>fish\<close> and the queue are empty, and bucket \<open>(0, 0)\<close> of the fish grid still holds
  the salmon: \<open>remove\<close> looked for it in the bucket of its current position.
\<close>

theorem flushRemovals_leaves_moved_fish_in_grid:
  "pools drifted fish = [0]
   \<and> cell (grids drifted grid_fish) (0, 0) = [0]
   \<and> key (grids drifted grid_fish) (ex (objs drifted 0)) (ey (objs drifted 0)) = (1, 0)
   \<and> removeQueue (queueRemove drifted 0) = [0]
   \<and> pools (flushRemovals (queueRemove drifted 0)) fish = []
   \<and> removeQueue (flushRemovals (queueRemove drifted 0)) = []
   \<and> cell (grids (flushRemovals (queueRemove drifted 0)) grid_fish) (0, 0) = [0]"
proof -
  have f: "pools drifted = (\<lambda>_. [])(fish := [0])" "removeQueue drifted = []"
    "grids drifted = grids parked" "ex (objs drifted 0) = 3 / 2" "ey (objs drifted 0) = 1 / 2"
    by (simp_all add: drifted_def moveFreely_def parked_fields)
  have a: "pools drifted fish = [0]" by (simp add: f)
  have b: "cell (grids drifted grid_fish) (0, 0) = [0]" by (simp add: f parked_cell)
  have k: "key (grids parked grid_fish) (3 / 2) (1 / 2) = (1, 0)"
    by (simp add: parked_fields key_def SpatialGrid_new_def unitFloor_def)
  have c: "key (grids drifted grid_fish) (ex (objs drifted 0)) (ey (objs drifted 0)) = (1, 0)"
    by (simp add: f k)
  have q: "removeQueue (queueRemove drifted 0) = [0]" by (simp add: queueRemove_def f)
  have r: "remove (queueRemove drifted 0) 0 = remove_at (queueRemove drifted 0) fish 0"
    by (simp add: remove_def poolNames_def f)
  have p: "pools (flushRemovals (queueRemove drifted 0)) fish = []"
    by (simp add: q r f(1))
  have e: "removeQueue (flushRemovals (queueRemove drifted 0)) = []" by simp
  have g0: "cell (grids (remove_at (queueRemove drifted 0) fish 0) grid_fish) (0, 0) = [0]"
    by (simp add: cell_remove_at f k parked_cell)
  have g: "cell (grids (flushRemovals (queueRemove drifted 0)) grid_fish) (0, 0) = [0]"
    by (simp add: q r g0)
  from a b c q p e g show ?thesis by (intro conjI)
qed

section \<open>The scheduler\<close>

lemma update_systems_map:
  "update_systems ss dt t = map (\<lambda>system. (system, dt, t)) ss"
  by (induction ss) simp_all

lemma loop_calls:
  "snd (loop e handle currentTime) =
     (if isRunning e \<and> \<not> currentTime - lastTime e < targetFrameMs e
      then map (\<lambda>system. (system, min ((currentTime - lastTime e) / 1000) (1 / 10), currentTime))
             (systems e)
      else [])"
  by (simp add: loop_def Let_def update_systems_map)

text \<open>
  C4. Whatever the time of the animation callback, every \<open>system.update\<close> call the loop
  makes gets as \<open>dt\<close> the elapsed time divided by 1000, clamped to at most 0.1, so \<open>dt\<close>
  never exceeds 0.1, and is 0.1 when the elapsed time is more than that; when the engine
  runs and the frame is not skipped, every registered system is called, in registration
  order.
\<close>

theorem loop_dt_clamped:
  "(\<forall>(system, dt, t) \<in> set (snd (loop e handle currentTime)).
      dt = min ((currentTime - lastTime e) / 1000) (1 / 10)
      \<and> dt \<le> 1 / 10
      \<and> (1 / 10 < (currentTime - lastTime e) / 1000 \<longrightarrow> dt = 1 / 10)
      \<and> t = currentTime)
   \<and> (isRunning e \<and> \<not> currentTime - lastTime e < targetFrameMs e
        \<longrightarrow> map fst (snd (loop e handle currentTime)) = systems e)"
proof -
  have 1: "\<forall>(system, dt, t) \<in> set (snd (loop e handle currentTime)).
      dt = min ((currentTime - lastTime e) / 1000) (1 / 10)
      \<and> dt \<le> 1 / 10
      \<and> (1 / 10 < (currentTime - lastTime e) / 1000 \<longrightarrow> dt = 1 / 10)
      \<and> t = currentTime"
    unfolding loop_calls by auto
  have 2: "isRunning e \<and> \<not> currentTime - lastTime e < targetFrameMs e
        \<longrightarrow> map fst (snd (loop e handle currentTime)) = systems e"
    unfolding loop_calls by (simp add: comp_def)
  from 1 2 show ?thesis ..
qed

text \<open>An engine at 60 frames a second with two systems, started, and called back after
  a pause of five seconds: both systems get \<open>dt = 0.1\<close>.\<close>

theorem loop_dt_clamped_witness:
  "snd (loop (start (addSystem (addSystem (Engine_new 60) (3::nat)) 4) 7) 8 5000)
     = [(3, 1 / 10, 5000), (4, 1 / 10, 5000)]
   \<and> isRunning (start (addSystem (addSystem (Engine_new 60) (3::nat)) 4) 7)
   \<and> \<not> 5000 - lastTime (start (addSystem (addSystem (Engine_new 60) (3::nat)) 4) 7)
         < targetFrameMs (start (addSystem (addSystem (Engine_new 60) (3::nat)) 4) 7)
   \<and> (1::real) / 10 < (5000 - lastTime (start (addSystem (addSystem (Engine_new 60) (3::nat)) 4) 7)) / 1000"
proof -
  let ?e = "start (addSystem (addSystem (Engine_new 60) (3::nat)) 4) 7"
  have f: "isRunning ?e" "lastTime ?e = 0" "targetFrameMs ?e = 1000 / 60" "systems ?e = [3, 4]"
    by (simp_all add: start_def addSystem_def Engine_new_def)
  have run: "isRunning ?e \<and> \<not> 5000 - lastTime ?e < targetFrameMs ?e" by (simp add: f)
  have big: "(1::real) / 10 < (5000 - lastTime ?e) / 1000" by (simp add: f)
  note t = loop_dt_clamped[of ?e 8 5000]
  from t run have names: "map fst (snd (loop ?e 8 5000)) = [3, 4]" by (simp add: f)
  then obtain c1 c2 where l: "snd (loop ?e 8 5000) = [c1, c2]" "fst c1 = 3" "fst c2 = 4"
    by auto
  from t have all: "\<forall>(system, dt, t) \<in> set (snd (loop ?e 8 5000)).
      dt = min ((5000 - lastTime ?e) / 1000) (1 / 10) \<and> dt \<le> 1 / 10
      \<and> (1 / 10 < (5000 - lastTime ?e) / 1000 \<longrightarrow> dt = 1 / 10) \<and> t = 5000"
    by (rule conjunct1)
  have "c1 = (3, 1 / 10, 5000)" using all big l by (cases c1) auto
  moreover have "c2 = (4, 1 / 10, 5000)" using all big l by (cases c2) auto
  ultimately have "snd (loop ?e 8 5000) = [(3, 1 / 10, 5000), (4, 1 / 10, 5000)]"
    using l by simp
  with run big show ?thesis by (intro conjI) simp_all
qed

section \<open>The pollution step\<close>

lemma tick_algae_fields [simp]:
  "pools (fst (tick_algae dt xs s delta)) = pools s"
  "grids (fst (tick_algae dt xs s delta)) = grids s"
  "waterPollution (fst (tick_algae dt xs s delta)) = waterPollution s"
  by (induction xs arbitrary: s delta) (simp_all add: Let_def)

lemma tick_algae_queue_grows:
  "set (removeQueue s) \<subseteq> set (removeQueue (fst (tick_algae dt xs s delta)))"
proof (induction xs arbitrary: s delta)
  case Nil
  show ?case by simp
next
  case (Cons a xs)
  let ?s1 = "s\<lparr>objs := (objs s)(a := (objs s a)\<lparr>lifetime := lifetime (objs s a) - dt\<rparr>)\<rparr>"
  let ?s2 = "if lifetime (objs ?s1 a) \<le> 0 then queueRemove ?s1 a else ?s1"
  have "set (removeQueue s) \<subseteq> set (removeQueue ?s2)" by auto
  also have "\<dots> \<subseteq> set (removeQueue (fst (tick_algae dt xs ?s2 d')))" for d'
    by (rule Cons.IH)
  finally show ?case by (simp add: Let_def)
qed

lemma tick_algae_untouched:
  "a \<notin> set xs \<Longrightarrow> objs (fst (tick_algae dt xs s delta)) a = objs s a"
  by (induction xs arbitrary: s delta) (simp_all add: Let_def)

lemma tick_algae_expired_queued:
  "a \<in> set xs \<Longrightarrow> lifetime (objs (fst (tick_algae dt xs s delta)) a) \<le> 0 \<Longrightarrow>
   a \<in> set (removeQueue (fst (tick_algae dt xs s delta)))"
proof (induction xs arbitrary: s delta)
  case Nil
  then show ?case by simp
next
  case (Cons x xs)
  let ?s1 = "s\<lparr>objs := (objs s)(x := (objs s x)\<lparr>lifetime := lifetime (objs s x) - dt\<rparr>)\<rparr>"
  let ?s2 = "if lifetime (objs ?s1 x) \<le> 0 then queueRemove ?s1 x else ?s1"
  let ?d1 = "case speciesDef (objs ?s1 x) of None \<Rightarrow> delta
             | Some d \<Rightarrow> (case pollutionRate d of None \<Rightarrow> delta | Some rate \<Rightarrow> delta + rate * dt)"
  have step: "fst (tick_algae dt (x # xs) s delta) = fst (tick_algae dt xs ?s2 ?d1)"
    by (simp add: Let_def)
  show ?case
  proof (cases "a \<in> set xs")
    case True
    from Cons.prems(2) have "lifetime (objs (fst (tick_algae dt xs ?s2 ?d1)) a) \<le> 0"
      unfolding step .
    from Cons.IH[OF True this] show ?thesis unfolding step .
  next
    case False
    with Cons.prems(1) have ax: "a = x" by simp
    have "objs (fst (tick_algae dt xs ?s2 ?d1)) a = objs ?s2 a"
      using False by (rule tick_algae_untouched)
    with Cons.prems(2) have "lifetime (objs ?s2 a) \<le> 0" unfolding step by simp
    then have "lifetime (objs ?s1 x) \<le> 0" using ax by (simp split: if_splits)
    then have "x \<in> set (removeQueue ?s2)" by simp
    with tick_algae_queue_grows[of ?s2 dt xs ?d1] ax show ?thesis unfolding step by blast
  qed
qed

lemma tick_algae_lifetime:
  "lifetime (objs (fst (tick_algae dt xs s delta)) a)
   = lifetime (objs s a) - dt * real (count_list xs a)"
  by (induction xs arbitrary: s delta) (simp_all add: Let_def algebra_simps)

lemma PollutionSystem_update_fst:
  "PollutionSystem_update False dt s =
     (let s1 = fst (tick_algae dt (pools s algae @ pools s seagrass @ pools s kelp) s 0);
          delta = snd (tick_algae dt (pools s algae @ pools s seagrass @ pools s kelp) s 0);
          s2 = s1\<lparr>waterPollution := max 0 (min 100 (waterPollution s1 + delta))\<rparr>
      in if \<bar>waterPollution s2 - waterPollution s1\<bar> > 1 / 100
         then notify s2 (POLLUTION_CHANGED (waterPollution s2)) else s2)"
  by (simp add: PollutionSystem_update_def Let_def split_def)

lemma PollutionSystem_update_pollution:
  "waterPollution (PollutionSystem_update False dt s) =
     max 0 (min 100 (waterPollution s
       + snd (tick_algae dt (pools s algae @ pools s seagrass @ pools s kelp) s 0)))"
  by (simp add: PollutionSystem_update_fst Let_def notify_def)

text \<open>
  C9. A tick of the pollution step on a game that is not paused leaves the pollution
  within \<open>[0, 100]\<close>, whatever the rates and lifetimes of the algae; every entity of the
  three algae pools whose lifetime after the tick is zero or below is in the removal
  queue; the lifetime of each has gone down by \<open>dt\<close> for each time the pools hold it; and
  the pools and grids are as before: nothing is removed in place. On a paused game the
  step changes nothing.
\<close>

theorem pollution_tick_clamps_and_queues:
  "0 \<le> waterPollution (PollutionSystem_update False dt s)
   \<and> waterPollution (PollutionSystem_update False dt s) \<le> 100
   \<and> (\<forall>a \<in> set (pools s algae @ pools s seagrass @ pools s kelp).
         lifetime (objs (PollutionSystem_update False dt s) a) \<le> 0
         \<longrightarrow> a \<in> set (removeQueue (PollutionSystem_update False dt s)))
   \<and> (\<forall>a. lifetime (objs (PollutionSystem_update False dt s) a)
           = lifetime (objs s a)
             - dt * real (count_list (pools s algae @ pools s seagrass @ pools s kelp) a))
   \<and> pools (PollutionSystem_update False dt s) = pools s
   \<and> grids (PollutionSystem_update False dt s) = grids s
   \<and> PollutionSystem_update True dt s = s"
proof -
  let ?xs = "pools s algae @ pools s seagrass @ pools s kelp"
  let ?s1 = "fst (tick_algae dt ?xs s 0)"
  let ?s' = "PollutionSystem_update False dt s"
  have o: "objs ?s' = objs ?s1" and q: "removeQueue ?s' = removeQueue ?s1"
    and p: "pools ?s' = pools s" and g: "grids ?s' = grids s"
    by (simp_all add: PollutionSystem_update_fst Let_def notify_def)
  have w: "0 \<le> waterPollution ?s' \<and> waterPollution ?s' \<le> 100"
    by (simp add: PollutionSystem_update_fst Let_def notify_def)
  have e: "\<forall>a \<in> set ?xs. lifetime (objs ?s' a) \<le> 0 \<longrightarrow> a \<in> set (removeQueue ?s')"
    unfolding o q using tick_algae_expired_queued by blast
  have l: "\<forall>a. lifetime (objs ?s' a) = lifetime (objs s a) - dt * real (count_list ?xs a)"
    unfolding o by (simp add: tick_algae_lifetime)
  have z: "PollutionSystem_update True dt s = s" by (simp add: PollutionSystem_update_def)
  from w e l p g z show ?thesis by (intro conjI) simp_all
qed

text \<open>The pond after a tick of one second: the toxic alga adds 0.5 and the kelp takes
  0.15 away, the sum 100.33 is clamped to 100; the toxic alga has expired and is queued,
  and is still in its pool.\<close>

theorem pollution_tick_clamps_and_queues_witness:
  "0 \<in> set (pools pond algae @ pools pond seagrass @ pools pond kelp)
   \<and> lifetime (objs (PollutionSystem_update False 1 pond) 0) \<le> 0
   \<and> 0 \<in> set (removeQueue (PollutionSystem_update False 1 pond))
   \<and> pools (PollutionSystem_update False 1 pond) algae = [0]
   \<and> waterPollution (PollutionSystem_update False 1 pond) = 100"
proof -
  note t = pollution_tick_clamps_and_queues[of 1 pond]
  have f: "pools pond algae = [0]" "pools pond seagrass = []" "pools pond kelp = [2]"
    "lifetime (objs pond 0) = 1 / 2" "removeQueue pond = []" "waterPollution pond = 9998 / 100"
    by (simp_all add: pond_def EntityManager_new_def)
  have m: "0 \<in> set (pools pond algae @ pools pond seagrass @ pools pond kelp)" by (simp add: f)
  from t have "lifetime (objs (PollutionSystem_update False 1 pond) 0)
       = lifetime (objs pond 0)
         - 1 * real (count_list (pools pond algae @ pools pond seagrass @ pools pond kelp) 0)"
    by blast
  then have l: "lifetime (objs (PollutionSystem_update False 1 pond) 0) \<le> 0" by (simp add: f)
  from t m l have q: "0 \<in> set (removeQueue (PollutionSystem_update False 1 pond))" by blast
  from t have p: "pools (PollutionSystem_update False 1 pond) algae = [0]" by (simp add: f)
  have r: "speciesDef (objs pond 0) = Some (TOXIC False)" "speciesDef (objs pond 2) = Some (KELP False)"
    "pollutionRate (TOXIC False) = Some (1 / 2)" "pollutionRate (KELP False) = Some (- (15 / 100))"
    by (simp_all add: pond_def AlgaeEntity_def BaseEntity_def TOXIC_def KELP_def species_def)
  have d: "snd (tick_algae 1 (pools pond algae @ pools pond seagrass @ pools pond kelp) pond 0)
           = 35 / 100"
    by (simp add: f Let_def r)
  have w: "waterPollution (PollutionSystem_update False 1 pond) = 100"
    unfolding PollutionSystem_update_pollution d by (simp add: f)
  from m l q p w show ?thesis by (intro conjI)
qed

section \<open>Dispatch on the bus\<close>

lemma dispatch_inert:
  assumes "b event = Some list"
    and "\<forall>h\<in>set (drop i list). behaviour h = []"
    and "length list - i < fuel"
  shows "dispatch fuel behaviour event i b invoked = Some (b, invoked @ drop i list)"
  using assms
proof (induction fuel arbitrary: i invoked)
  case 0
  then show ?case by simp
next
  case (Suc fuel)
  show ?case
  proof (cases "i < length list")
    case False
    with Suc.prems(1) show ?thesis by simp
  next
    case True
    then have d: "drop i list = list ! i # drop (Suc i) list" by (simp add: Cons_nth_drop_Suc)
    with Suc.prems(2) have inert: "behaviour (list ! i) = []"
      and rest: "\<forall>h\<in>set (drop (Suc i) list). behaviour h = []" by simp_all
    have c: "call behaviour (list ! i) b = b" by (simp add: call_def inert)
    have "length list - Suc i < fuel" using Suc.prems(3) True by linarith
    from Suc.IH[OF Suc.prems(1) rest this, of "invoked @ [list ! i]"]
    show ?thesis using Suc.prems(1) True by (simp add: c d)
  qed
qed

text \<open>
  C10. \<open>emit\<close> walks the array the bus holds, not a copy. Let the subscribers of a topic
  be \<open>a\<close>, then \<open>c\<close>, then any handlers \<open>rest\<close> that leave the bus alone, with \<open>c\<close> subscribed
  once, and let \<open>a\<close>, when called, unsubscribe itself from the topic. Then an \<open>emit\<close> for
  the topic returns having called \<open>a\<close> and the handlers of \<open>rest\<close>, in this order, and not
  \<open>c\<close>: the \<open>splice\<close> moved \<open>c\<close> to the index the iterator had passed. Afterwards the
  subscribers are \<open>c\<close> and \<open>rest\<close>.
\<close>

theorem emit_skips_handler_after_self_unsubscribe:
  assumes "b event = Some (a # c # rest)"
    and "a \<noteq> c" and "c \<notin> set rest"
    and "behaviour a = [Off event a]"
    and "\<forall>h\<in>set rest. behaviour h = []"
    and "length rest + 2 \<le> fuel"
  shows "emit fuel behaviour b event = Some (b(event \<mapsto> c # rest), a # rest)
     \<and> c \<notin> set (a # rest)"
proof -
  from assms(6) obtain n where fuel: "fuel = Suc n" and n: "length rest < n"
    by (cases fuel) auto
  let ?b = "b(event \<mapsto> c # rest)"
  have c: "call behaviour a b = ?b"
    by (simp add: call_def assms(4) off_def assms(1))
  have "dispatch n behaviour event 1 ?b [a] = Some (?b, [a] @ drop 1 (c # rest))"
    by (rule dispatch_inert) (use assms(5) n in simp_all)
  then have "dispatch fuel behaviour event 0 b [] = Some (?b, a # rest)"
    unfolding fuel by (simp add: assms(1) c)
  then have "emit fuel behaviour b event = Some (?b, a # rest)"
    by (simp add: emit_def assms(1))
  moreover have "c \<notin> set (a # rest)" using assms(2,3) by simp
  ultimately show ?thesis ..
qed

text \<open>Handlers 3 and 4 are subscribed to \<open>tick\<close> in this order; handler 3 unsubscribes
  itself, handler 4 would subscribe a further handler. One \<open>emit\<close> calls 3 alone.\<close>

theorem emit_skips_handler_after_self_unsubscribe_witness:
  "on (on Map.empty ''tick'' 3) ''tick'' 4 ''tick'' = Some [3, 4]
   \<and> emit 5 ((\<lambda>_. [])(3 := [Off ''tick'' 3], 4 := [On ''tick'' 9]))
        (on (on Map.empty ''tick'' 3) ''tick'' 4) ''tick''
     = Some ((on (on Map.empty ''tick'' 3) ''tick'' 4)(''tick'' \<mapsto> [4]), [3])"
proof -
  let ?b = "on (on Map.empty ''tick'' 3) ''tick'' 4"
  let ?beh = "(\<lambda>_. [])(3 := [Off ''tick'' 3], 4 := [On ''tick'' 9])"
  have s: "?b ''tick'' = Some (3 # 4 # [])" by (simp add: on_def)
  have "emit 5 ?beh ?b ''tick'' = Some (?b(''tick'' \<mapsto> 4 # []), 3 # [])
        \<and> 4 \<notin> set (3 # ([]::handler list))"
    using s
    by (intro emit_skips_handler_after_self_unsubscribe[where b = "?b" and event = "''tick''"
          and a = 3 and c = 4 and rest = "[]" and behaviour = "?beh" and fuel = 5]) simp_all
  with s show ?thesis by simp
qed

end
